theory Spec2Isabelle
  imports Complex_Main "HOL-Library.AList"
begin

section \<open>Climate simulation and scheduling engine of \<^verbatim>\<open>sys_status.py\<close>\<close>

text \<open>
  A shallow embedding of the simulation core of \<^verbatim>\<open>SystemStatusScreen\<close>: the per-room state
  dictionary, the tick body of \<^verbatim>\<open>_simulation_loop\<close>, the control handlers
  (\<^verbatim>\<open>toggle_heat_on\<close>, \<^verbatim>\<open>toggle_heat_off\<close>, \<^verbatim>\<open>activate_ac_boost\<close>, \<^verbatim>\<open>toggle_timed_heat\<close>),
  \<^verbatim>\<open>execute_scheduled_event\<close>, and the save/load pair (\<^verbatim>\<open>_save_state_to_config\<close>, the loading
  part of \<^verbatim>\<open>__init__\<close>).

  Modelling decisions.
  \<^item> A room state is the dictionary of \<^verbatim>\<open>_get_default_room_state\<close>; every key of it is present
    in every state the program builds (the loader merges over the defaults), so it is a record.
    Values have the types the program writes: Python floats are read as real numbers
    (rounding is not modelled), Python ints as \<open>int\<close>.
  \<^item> A scheduled event is a dictionary read partly with \<^verbatim>\<open>event[...]\<close> (a missing key raises
    \<^verbatim>\<open>KeyError\<close>) and partly with \<^verbatim>\<open>.get\<close> (a default); each key is an optional field.
  \<^item> \<^verbatim>\<open>self.room_states\<close> is an insertion-ordered dictionary: an association list, written with
    \<^const>\<open>AList.update\<close> (in place for a known key, appended for a new one) and read with
    \<^const>\<open>map_of\<close>.
  \<^item> \<^verbatim>\<open>datetime.fromisoformat\<close> belongs to the Python library: the tick takes it as a
    parameter \<open>parse\<close>, where \<open>None\<close> stands for the exception it raises. What it returns is
    a naive timestamp or one that carries a UTC offset; \<^verbatim>\<open>datetime.now()\<close> is naive, and Python
    refuses to compare the two kinds with \<^verbatim>\<open>TypeError\<close>. Naive instants are any linearly
    ordered type.
  \<^item> In an event, a key that is present holds a value of the type the program writes
    (\<^verbatim>\<open>schedule_event_prompt\<close>): strings, a boolean, a dictionary of parameters with an
    integer duration.
  \<^item> An exception leaves the mutations made so far in place: the loops return the state
    reached together with the exception, if one was raised.
  \<^item> The simulation thread and the interface thread share the room states without a lock.
    Here a handler runs between two ticks, never inside one, and a tick reads
    \<^verbatim>\<open>self.current_room\<close> once.
  \<^item> Widgets, logging and the activity log do not feed back into the room states and are
    left out.
\<close>

subsection \<open>Constants\<close>

definition INITIAL_TEMP_CELSIUS :: real where "INITIAL_TEMP_CELSIUS = 20.0"
definition INITIAL_HUMIDITY_PERCENT :: real where "INITIAL_HUMIDITY_PERCENT = 50.0"
definition AMBIENT_TEMP_TARGET :: real where "AMBIENT_TEMP_TARGET = 22.0"
definition AMBIENT_HUMIDITY_TARGET :: real where "AMBIENT_HUMIDITY_TARGET = 45.0"
definition HEAT_RATE :: real where "HEAT_RATE = 0.2"
definition COOL_RATE_AC :: real where "COOL_RATE_AC = 0.3"
definition AC_HUMIDITY_REDUCTION_RATE :: real where "AC_HUMIDITY_REDUCTION_RATE = 0.2"
definition AMBIENT_DRIFT_RATE_TEMP :: real where "AMBIENT_DRIFT_RATE_TEMP = 0.05"
definition BACKGROUND_AMBIENT_DRIFT_RATE_TEMP :: real where
  "BACKGROUND_AMBIENT_DRIFT_RATE_TEMP = 0.02"
definition AMBIENT_DRIFT_RATE_HUMIDITY :: real where "AMBIENT_DRIFT_RATE_HUMIDITY = 0.1"
definition BACKGROUND_AMBIENT_DRIFT_RATE_HUMIDITY :: real where
  "BACKGROUND_AMBIENT_DRIFT_RATE_HUMIDITY = 0.04"
definition SIMULATION_TICK_INTERVAL_SECONDS :: int where "SIMULATION_TICK_INTERVAL_SECONDS = 1"
definition GRAPH_DATA_POINTS :: nat where "GRAPH_DATA_POINTS = 60"
definition DEFAULT_ROOMS_FALLBACK :: "string list" where
  "DEFAULT_ROOMS_FALLBACK = [''Living Room'', ''Bedroom'', ''Kitchen'']"

subsection \<open>Data model\<close>

datatype error = KeyError string | ValueError string | TypeError string

text \<open>What \<^verbatim>\<open>datetime.fromisoformat\<close> returns: a naive timestamp, or an offset-aware one.\<close>

datatype 't stamp = Naive 't | Aware

record event_params =
  duration_minutes :: "int option"

record scheduled_event =
  start_time_iso :: "string option"
  action :: "string option"
  params :: "event_params option"
  triggered :: "bool option"
  description :: "string option"

record room_state =
  temp :: real
  humidity :: real
  heat_on :: bool
  ac_boost_on :: bool
  ac_boost_timer :: int
  timed_heat_active :: bool
  timed_heat_remaining_seconds :: int
  scheduled_events :: "scheduled_event list"
  time_data :: "int list"
  temp_data :: "real list"
  humidity_data :: "real list"
  simulation_time_elapsed :: int

text \<open>
  \<^verbatim>\<open>collections.deque(maxlen=GRAPH_DATA_POINTS)\<close>: a list, oldest entry first. Building one from
  a list keeps the last \<open>maxlen\<close> items; appending to a full one drops the oldest.
\<close>

definition deque_of_list :: "'a list \<Rightarrow> 'a list" where
  "deque_of_list xs = drop (length xs - GRAPH_DATA_POINTS) xs"

definition deque_append :: "'a list \<Rightarrow> 'a \<Rightarrow> 'a list" where
  "deque_append dq x = deque_of_list (dq @ [x])"

definition get_default_room_state :: room_state where
  "get_default_room_state =
     \<lparr> temp = INITIAL_TEMP_CELSIUS,
       humidity = INITIAL_HUMIDITY_PERCENT,
       heat_on = False,
       ac_boost_on = False,
       ac_boost_timer = 0,
       timed_heat_active = False,
       timed_heat_remaining_seconds = 0,
       scheduled_events = [],
       time_data = [],
       temp_data = [],
       humidity_data = [],
       simulation_time_elapsed = 0 \<rparr>"

text \<open>
  The screen object, as far as the simulation reads and writes it: the room list, the room
  shown (\<^verbatim>\<open>self.current_room\<close>, possibly \<^verbatim>\<open>None\<close>) and the room states.
\<close>

record system =
  rooms :: "string list"
  current_room :: "string option"
  room_states :: "(string \<times> room_state) list"

subsection \<open>Scheduled events\<close>

text \<open>\<^verbatim>\<open>event.get('triggered', False)\<close>\<close>

definition get_triggered :: "scheduled_event \<Rightarrow> bool" where
  "get_triggered event = (case triggered event of None \<Rightarrow> False | Some b \<Rightarrow> b)"

text \<open>
  The condition of the event loop,
  \<^verbatim>\<open>not event.get('triggered', False) and now_time >= datetime.fromisoformat(event['start_time_iso'])\<close>.
  The right operand is evaluated only for an untriggered event; it raises \<^verbatim>\<open>KeyError\<close> when the
  key is missing, the parser's exception when the string is not a timestamp, and \<^verbatim>\<open>TypeError\<close>
  when the timestamp is offset-aware, since \<^verbatim>\<open>now_time\<close> is naive.
\<close>

definition event_due ::
    "(string \<Rightarrow> 't stamp option) \<Rightarrow> 't::linorder \<Rightarrow> scheduled_event \<Rightarrow> error + bool" where
  "event_due parse now_time event =
     (if \<not> get_triggered event then
        (case start_time_iso event of
           None \<Rightarrow> Inl (KeyError ''start_time_iso'')
         | Some s \<Rightarrow>
             (case parse s of
                None \<Rightarrow> Inl (ValueError s)
              | Some Aware \<Rightarrow> Inl (TypeError s)
              | Some (Naive t) \<Rightarrow> Inr (now_time \<ge> t)))
      else Inr False)"

text \<open>\<^verbatim>\<open>params.get('duration_minutes', 10)\<close> with \<^verbatim>\<open>params = event_details.get('params', {})\<close>\<close>

definition get_duration :: "scheduled_event \<Rightarrow> int" where
  "get_duration event_details =
     (case params event_details of
        None \<Rightarrow> 10
      | Some p \<Rightarrow> (case duration_minutes p of None \<Rightarrow> 10 | Some d \<Rightarrow> d))"

text \<open>
  \<^verbatim>\<open>execute_scheduled_event\<close>, on the state of the room named. \<^verbatim>\<open>event_details['action']\<close> is read
  first and raises before anything is changed.
\<close>

definition execute_scheduled_event :: "scheduled_event \<Rightarrow> room_state \<Rightarrow> error + room_state" where
  "execute_scheduled_event event_details room_state =
     (case action event_details of
        None \<Rightarrow> Inl (KeyError ''action'')
      | Some act \<Rightarrow>
          (if act = ''start_timed_heat'' then
             (let duration = get_duration event_details in
              if heat_on room_state \<or> ac_boost_on room_state then Inr room_state
              else Inr (room_state\<lparr> timed_heat_active := True,
                                     timed_heat_remaining_seconds := duration * 60,
                                     heat_on := True \<rparr>))
           else Inr room_state))"

text \<open>\<^verbatim>\<open>event['triggered'] = True\<close> on the event at index \<open>i\<close> of the room's list.\<close>

definition mark_triggered :: "nat \<Rightarrow> room_state \<Rightarrow> room_state" where
  "mark_triggered i room_state =
     room_state\<lparr> scheduled_events :=
       (scheduled_events room_state)[i := (scheduled_events room_state ! i)\<lparr> triggered := Some True \<rparr>] \<rparr>"

text \<open>
  The event loop \<^verbatim>\<open>for i in range(len(events) - 1, -1, -1)\<close>: \<open>events_loop parse now n st\<close> runs
  the indices \<open>n - 1\<close> down to \<open>0\<close>. It returns the state reached, the indices whose event was
  handed to \<^verbatim>\<open>execute_scheduled_event\<close> and came back (in the order of the calls), and the
  exception that ended the loop, if any.
\<close>

fun events_loop ::
    "(string \<Rightarrow> 't stamp option) \<Rightarrow> 't::linorder \<Rightarrow> nat \<Rightarrow> room_state
       \<Rightarrow> room_state \<times> nat list \<times> error option" where
  "events_loop parse now_time 0 room_state = (room_state, [], None)"
| "events_loop parse now_time (Suc i) room_state =
     (let event = scheduled_events room_state ! i in
      case event_due parse now_time event of
        Inl err \<Rightarrow> (room_state, [], Some err)
      | Inr False \<Rightarrow> events_loop parse now_time i room_state
      | Inr True \<Rightarrow>
          (case execute_scheduled_event event room_state of
             Inl err \<Rightarrow> (room_state, [], Some err)
           | Inr st1 \<Rightarrow>
               (case events_loop parse now_time i (mark_triggered i st1) of
                  (st2, fired, err) \<Rightarrow> (st2, i # fired, err))))"

subsection \<open>Timers\<close>

definition timed_heat_step :: "room_state \<Rightarrow> room_state" where
  "timed_heat_step room_state =
     (if timed_heat_active room_state then
        (let st1 = room_state\<lparr> heat_on := True,
                     timed_heat_remaining_seconds :=
                       timed_heat_remaining_seconds room_state - SIMULATION_TICK_INTERVAL_SECONDS \<rparr>
         in if timed_heat_remaining_seconds st1 \<le> 0
            then st1\<lparr> timed_heat_active := False, heat_on := False,
                      timed_heat_remaining_seconds := 0 \<rparr>
            else st1)
      else room_state)"

definition ac_boost_step :: "room_state \<Rightarrow> room_state" where
  "ac_boost_step room_state =
     (if ac_boost_on room_state then
        (let st1 = (if heat_on room_state \<and> \<not> timed_heat_active room_state
                    then room_state\<lparr> heat_on := False \<rparr> else room_state);
             st2 = st1\<lparr> ac_boost_timer := ac_boost_timer st1 - SIMULATION_TICK_INTERVAL_SECONDS \<rparr>
         in if ac_boost_timer st2 \<le> 0
            then st2\<lparr> ac_boost_on := False, ac_boost_timer := 0 \<rparr>
            else st2)
      else room_state)"

definition process_timers :: "room_state \<Rightarrow> room_state" where
  "process_timers room_state = ac_boost_step (timed_heat_step room_state)"

subsection \<open>Climate update and history\<close>

text \<open>
  The random draws \<^verbatim>\<open>random.uniform(-0.03, 0.03)\<close> and \<^verbatim>\<open>random.uniform(-0.08, 0.08)\<close> are inputs
  of the tick (\<open>temp_noise\<close>, \<open>humidity_noise\<close>); they are used for the viewed room only.
\<close>

definition climate_update ::
    "string option \<Rightarrow> real \<Rightarrow> real \<Rightarrow> string \<Rightarrow> room_state \<Rightarrow> room_state" where
  "climate_update cur temp_noise humidity_noise room_name room_state =
     (let temp_change0 = (0::real);
          humidity_change0 = (0::real);
          temp_change1 =
            (if heat_on room_state then temp_change0 + HEAT_RATE
             else if ac_boost_on room_state then temp_change0 - COOL_RATE_AC
             else temp_change0);
          humidity_change1 =
            (if heat_on room_state then humidity_change0
             else if ac_boost_on room_state then humidity_change0 - AC_HUMIDITY_REDUCTION_RATE
             else humidity_change0);
          drift_rate_temp =
            (if Some room_name \<noteq> cur then BACKGROUND_AMBIENT_DRIFT_RATE_TEMP
             else AMBIENT_DRIFT_RATE_TEMP);
          current_temp = temp room_state;
          temp_change2 =
            (if current_temp < AMBIENT_TEMP_TARGET
             then temp_change1 + drift_rate_temp * \<bar>AMBIENT_TEMP_TARGET - current_temp\<bar> * 0.15
             else if current_temp > AMBIENT_TEMP_TARGET
             then temp_change1 - drift_rate_temp * \<bar>current_temp - AMBIENT_TEMP_TARGET\<bar> * 0.15
             else temp_change1);
          drift_rate_humidity =
            (if Some room_name \<noteq> cur then BACKGROUND_AMBIENT_DRIFT_RATE_HUMIDITY
             else AMBIENT_DRIFT_RATE_HUMIDITY);
          current_humidity = humidity room_state;
          humidity_change2 =
            (if current_humidity < AMBIENT_HUMIDITY_TARGET
             then humidity_change1
                    + drift_rate_humidity * \<bar>AMBIENT_HUMIDITY_TARGET - current_humidity\<bar> * 0.15
             else if current_humidity > AMBIENT_HUMIDITY_TARGET
             then humidity_change1
                    - drift_rate_humidity * \<bar>current_humidity - AMBIENT_HUMIDITY_TARGET\<bar> * 0.15
             else humidity_change1);
          temp_change3 =
            (if Some room_name = cur then temp_change2 + temp_noise else temp_change2);
          humidity_change3 =
            (if Some room_name = cur then humidity_change2 + humidity_noise
             else humidity_change2)
      in room_state\<lparr> temp := max 5.0 (min 35.0 (current_temp + temp_change3)),
                      humidity := max 10.0 (min 90.0 (current_humidity + humidity_change3)) \<rparr>)"

definition history_update :: "string option \<Rightarrow> string \<Rightarrow> room_state \<Rightarrow> room_state" where
  "history_update cur room_name room_state =
     (if Some room_name = cur then
        (let st1 = room_state\<lparr> simulation_time_elapsed :=
                     simulation_time_elapsed room_state + SIMULATION_TICK_INTERVAL_SECONDS \<rparr>
         in st1\<lparr> time_data := deque_append (time_data st1) (simulation_time_elapsed st1),
                 temp_data := deque_append (temp_data st1) (temp st1),
                 humidity_data := deque_append (humidity_data st1) (humidity st1) \<rparr>)
      else room_state)"

subsection \<open>The tick\<close>

text \<open>What one pass of the \<^verbatim>\<open>while\<close> loop reads from outside the room states.\<close>

record 't tick_input =
  now_time :: 't
  temp_noise :: real
  humidity_noise :: real

text \<open>The body of \<^verbatim>\<open>for room_name, room_state in list(self.room_states.items())\<close>.\<close>

definition process_room ::
    "(string \<Rightarrow> 't stamp option) \<Rightarrow> 't::linorder tick_input \<Rightarrow> string option \<Rightarrow> string \<Rightarrow> room_state
       \<Rightarrow> room_state \<times> nat list \<times> error option" where
  "process_room parse inp cur room_name room_state =
     (case events_loop parse (now_time inp) (length (scheduled_events room_state)) room_state of
        (st1, fired, Some err) \<Rightarrow> (st1, fired, Some err)
      | (st1, fired, None) \<Rightarrow>
          (history_update cur room_name
             (climate_update cur (temp_noise inp) (humidity_noise inp) room_name
                (process_timers st1)),
           fired, None))"

text \<open>
  The loop over the rooms, in dictionary order. Nothing in \<^verbatim>\<open>_simulation_loop\<close> catches an
  exception: the first one ends the loop, and the rooms after it are left as they were.
\<close>

fun rooms_loop ::
    "(string \<Rightarrow> 't stamp option) \<Rightarrow> 't::linorder tick_input \<Rightarrow> string option
       \<Rightarrow> (string \<times> room_state) list \<Rightarrow> (string \<times> room_state) list \<times> error option" where
  "rooms_loop parse inp cur [] = ([], None)"
| "rooms_loop parse inp cur ((room_name, room_state) # rest) =
     (case process_room parse inp cur room_name room_state of
        (st1, fired, Some err) \<Rightarrow> ((room_name, st1) # rest, Some err)
      | (st1, fired, None) \<Rightarrow>
          (case rooms_loop parse inp cur rest of
             (rest1, err) \<Rightarrow> ((room_name, st1) # rest1, err)))"

definition simulation_tick ::
    "(string \<Rightarrow> 't stamp option) \<Rightarrow> 't::linorder tick_input \<Rightarrow> system \<Rightarrow> system \<times> error option" where
  "simulation_tick parse inp sys =
     (case rooms_loop parse inp (current_room sys) (room_states sys) of
        (rs, err) \<Rightarrow> (sys\<lparr> room_states := rs \<rparr>, err))"

subsection \<open>Control handlers\<close>

text \<open>
  Every handler starts with
  \<^verbatim>\<open>if not self.current_room or self.current_room not in self.room_states: return\<close>
  and then works on \<^verbatim>\<open>self.room_states[self.current_room]\<close>.
\<close>

definition on_current_room :: "(room_state \<Rightarrow> room_state) \<Rightarrow> system \<Rightarrow> system" where
  "on_current_room f sys =
     (case current_room sys of
        None \<Rightarrow> sys
      | Some r \<Rightarrow>
          (if r = [] then sys
           else (case map_of (room_states sys) r of
                   None \<Rightarrow> sys
                 | Some room_state \<Rightarrow>
                     sys\<lparr> room_states := AList.update r (f room_state) (room_states sys) \<rparr>)))"

definition toggle_heat_on_state :: "room_state \<Rightarrow> room_state" where
  "toggle_heat_on_state room_state =
     (if timed_heat_active room_state \<or> ac_boost_on room_state then room_state
      else if \<not> heat_on room_state then room_state\<lparr> heat_on := True \<rparr>
      else room_state)"

definition toggle_heat_on :: "system \<Rightarrow> system" where
  "toggle_heat_on = on_current_room toggle_heat_on_state"

definition toggle_heat_off_state :: "room_state \<Rightarrow> room_state" where
  "toggle_heat_off_state room_state =
     (if timed_heat_active room_state then room_state
      else if heat_on room_state then room_state\<lparr> heat_on := False \<rparr>
      else room_state)"

definition toggle_heat_off :: "system \<Rightarrow> system" where
  "toggle_heat_off = on_current_room toggle_heat_off_state"

definition activate_ac_boost_state :: "room_state \<Rightarrow> room_state" where
  "activate_ac_boost_state room_state =
     (if heat_on room_state \<or> timed_heat_active room_state then room_state
      else if \<not> ac_boost_on room_state
      then room_state\<lparr> ac_boost_on := True, ac_boost_timer := 30 \<rparr>
      else room_state)"

definition activate_ac_boost :: "system \<Rightarrow> system" where
  "activate_ac_boost = on_current_room activate_ac_boost_state"

text \<open>
  \<^verbatim>\<open>toggle_timed_heat\<close>. \<open>answer\<close> is what the duration dialog returns when it is reached:
  \<open>None\<close> when the user cancels, otherwise an integer that \<^verbatim>\<open>askinteger\<close> has kept within
  \<^verbatim>\<open>minvalue=1\<close> and \<^verbatim>\<open>maxvalue=MAX_TIMED_HEAT_MINUTES\<close> (60).
\<close>

definition MAX_TIMED_HEAT_MINUTES :: int where "MAX_TIMED_HEAT_MINUTES = 60"

definition toggle_timed_heat_state :: "int option \<Rightarrow> room_state \<Rightarrow> room_state" where
  "toggle_timed_heat_state answer room_state =
     (if timed_heat_active room_state
      then room_state\<lparr> timed_heat_active := False, heat_on := False,
                       timed_heat_remaining_seconds := 0 \<rparr>
      else if heat_on room_state \<or> ac_boost_on room_state then room_state
      else (case answer of
              Some minutes \<Rightarrow>
                room_state\<lparr> timed_heat_active := True,
                            timed_heat_remaining_seconds := minutes * 60,
                            heat_on := True \<rparr>
            | None \<Rightarrow> room_state))"

definition toggle_timed_heat :: "int option \<Rightarrow> system \<Rightarrow> system" where
  "toggle_timed_heat answer = on_current_room (toggle_timed_heat_state answer)"

text \<open>
  \<^verbatim>\<open>on_room_selected\<close>, as far as the state goes: the base name of the combobox entry becomes
  the current room unless it is empty. The refresh that follows
  (\<^verbatim>\<open>update_all_ui_for_current_room\<close>) puts the first room of the list in its place when the
  name has no room state; a run may select any name at any step, the first room's among
  them, so the runs below include that outcome.
\<close>

definition on_room_selected :: "string \<Rightarrow> system \<Rightarrow> system" where
  "on_room_selected base_room_name sys =
     (if base_room_name = [] then sys else sys\<lparr> current_room := Some base_room_name \<rparr>)"

subsection \<open>Runs\<close>

text \<open>
  The \<^verbatim>\<open>while self._simulation_running\<close> loop has no bound of its own. A run is a finite list
  of steps: a tick of the simulation thread with what it reads from the clock and the random
  generator, or a handler called from the interface. An exception raised in a tick ends the
  simulation thread: later ticks of the run do nothing, the handlers still work.
\<close>

datatype 't step =
    Tick "'t tick_input"
  | HeatOn
  | HeatOff
  | AcBoost
  | TimedHeat "int option"
  | SelectRoom string

fun apply_step ::
    "(string \<Rightarrow> 't stamp option) \<Rightarrow> 't::linorder step \<Rightarrow> system \<times> error option
       \<Rightarrow> system \<times> error option" where
  "apply_step parse (Tick inp) (sys, crash) =
     (case crash of None \<Rightarrow> simulation_tick parse inp sys | Some err \<Rightarrow> (sys, Some err))"
| "apply_step parse HeatOn (sys, crash) = (toggle_heat_on sys, crash)"
| "apply_step parse HeatOff (sys, crash) = (toggle_heat_off sys, crash)"
| "apply_step parse AcBoost (sys, crash) = (activate_ac_boost sys, crash)"
| "apply_step parse (TimedHeat answer) (sys, crash) = (toggle_timed_heat answer sys, crash)"
| "apply_step parse (SelectRoom name) (sys, crash) = (on_room_selected name sys, crash)"

fun run ::
    "(string \<Rightarrow> 't stamp option) \<Rightarrow> 't::linorder step list \<Rightarrow> system \<times> error option
       \<Rightarrow> system \<times> error option" where
  "run parse [] s = s"
| "run parse (step # steps) s = run parse steps (apply_step parse step s)"

text \<open>
  The ticks of one room on its own: \<open>room_ticks\<close> applies the tick body to the room once per
  input and returns the state reached, the indices of the events executed in each tick, and
  the exception that stopped it, if any.
\<close>

fun room_ticks ::
    "(string \<Rightarrow> 't stamp option) \<Rightarrow> string option \<Rightarrow> string \<Rightarrow> 't::linorder tick_input list
       \<Rightarrow> room_state \<Rightarrow> room_state \<times> nat list list \<times> error option" where
  "room_ticks parse cur room_name [] room_state = (room_state, [], None)"
| "room_ticks parse cur room_name (inp # inps) room_state =
     (case process_room parse inp cur room_name room_state of
        (st1, fired, Some err) \<Rightarrow> (st1, [fired], Some err)
      | (st1, fired, None) \<Rightarrow>
          (case room_ticks parse cur room_name inps st1 of
             (st2, fireds, err) \<Rightarrow> (st2, fired # fireds, err)))"

subsection \<open>Saving and loading\<close>

text \<open>
  The persisted document is what \<^verbatim>\<open>json.load\<close> returns. A room's entry may lack any key. The
  loader tests with \<^verbatim>\<open>isinstance(..., list)\<close> the three history keys and the event list, so
  these four may hold a list or something that is not one; the other keys hold values of
  the type the program writes.
\<close>

datatype 'a json_list = JList "'a list" | JOther

record room_doc =
  doc_temp :: "real option"
  doc_humidity :: "real option"
  doc_heat_on :: "bool option"
  doc_ac_boost_on :: "bool option"
  doc_ac_boost_timer :: "int option"
  doc_timed_heat_active :: "bool option"
  doc_timed_heat_remaining_seconds :: "int option"
  doc_scheduled_events :: "scheduled_event json_list option"
  doc_time_data :: "int json_list option"
  doc_temp_data :: "real json_list option"
  doc_humidity_data :: "real json_list option"
  doc_simulation_time_elapsed :: "int option"

text \<open>The two keys of \<^verbatim>\<open>config.json\<close> the dashboard uses.\<close>

record config =
  default_rooms :: "string list option"
  room_states_cfg :: "(string \<times> room_doc) list option"

text \<open>\<^verbatim>\<open>{**default_state, **loaded_state}[key]\<close>\<close>

definition merged :: "'a \<Rightarrow> 'a option \<Rightarrow> 'a" where
  "merged dflt loaded = (case loaded of None \<Rightarrow> dflt | Some v \<Rightarrow> v)"

text \<open>
  A history key after the merge: a list becomes a bounded deque, a value that is neither a
  list nor a deque is replaced by the default's empty deque, and a missing key leaves the
  default's deque.
\<close>

definition load_deque :: "'a list \<Rightarrow> 'a json_list option \<Rightarrow> 'a list" where
  "load_deque dflt loaded =
     (case loaded of
        None \<Rightarrow> dflt
      | Some (JList xs) \<Rightarrow> deque_of_list xs
      | Some JOther \<Rightarrow> dflt)"

definition load_events :: "scheduled_event json_list option \<Rightarrow> scheduled_event list" where
  "load_events loaded =
     (case loaded of
        None \<Rightarrow> scheduled_events get_default_room_state
      | Some (JList es) \<Rightarrow> es
      | Some JOther \<Rightarrow> [])"

text \<open>
  The body of the loading loop of \<^verbatim>\<open>__init__\<close> for one room: \<open>entry\<close> is
  \<^verbatim>\<open>persisted_room_states.get(room_name)\<close>; without one the default state is used as it is.
\<close>

definition load_room_state :: "room_doc option \<Rightarrow> room_state" where
  "load_room_state entry =
     (let default_state = get_default_room_state in
      case entry of
        None \<Rightarrow> default_state
      | Some loaded_state \<Rightarrow>
          \<lparr> temp = merged (temp default_state) (doc_temp loaded_state),
            humidity = merged (humidity default_state) (doc_humidity loaded_state),
            heat_on = merged (heat_on default_state) (doc_heat_on loaded_state),
            ac_boost_on = merged (ac_boost_on default_state) (doc_ac_boost_on loaded_state),
            ac_boost_timer =
              merged (ac_boost_timer default_state) (doc_ac_boost_timer loaded_state),
            timed_heat_active =
              merged (timed_heat_active default_state) (doc_timed_heat_active loaded_state),
            timed_heat_remaining_seconds =
              merged (timed_heat_remaining_seconds default_state)
                (doc_timed_heat_remaining_seconds loaded_state),
            scheduled_events = load_events (doc_scheduled_events loaded_state),
            time_data = load_deque (time_data default_state) (doc_time_data loaded_state),
            temp_data = load_deque (temp_data default_state) (doc_temp_data loaded_state),
            humidity_data =
              load_deque (humidity_data default_state) (doc_humidity_data loaded_state),
            simulation_time_elapsed =
              merged (simulation_time_elapsed default_state)
                (doc_simulation_time_elapsed loaded_state) \<rparr>)"

text \<open>The room list: the stored one, or the fallback when it is missing or empty.\<close>

definition load_rooms :: "config \<Rightarrow> string list" where
  "load_rooms config_data =
     (let rs = (case default_rooms config_data of
                  None \<Rightarrow> DEFAULT_ROOMS_FALLBACK | Some rs \<Rightarrow> rs)
      in if rs = [] then DEFAULT_ROOMS_FALLBACK else rs)"

definition load_room_states ::
    "string list \<Rightarrow> (string \<times> room_doc) list \<Rightarrow> (string \<times> room_state) list" where
  "load_room_states rs persisted_room_states =
     foldl (\<lambda>acc room_name.
              AList.update room_name (load_room_state (map_of persisted_room_states room_name)) acc)
       [] rs"

definition init_system :: "config \<Rightarrow> system" where
  "init_system config_data =
     (let rs = load_rooms config_data;
          persisted_room_states =
            (case room_states_cfg config_data of None \<Rightarrow> [] | Some p \<Rightarrow> p)
      in \<lparr> rooms = rs,
           current_room = (case rs of [] \<Rightarrow> None | r # _ \<Rightarrow> Some r),
           room_states = load_room_states rs persisted_room_states \<rparr>)"

text \<open>\<^verbatim>\<open>_save_state_to_config\<close>: the copy of one room state with its deques turned into lists.\<close>

definition serializable_state :: "room_state \<Rightarrow> room_doc" where
  "serializable_state state =
     \<lparr> doc_temp = Some (temp state),
       doc_humidity = Some (humidity state),
       doc_heat_on = Some (heat_on state),
       doc_ac_boost_on = Some (ac_boost_on state),
       doc_ac_boost_timer = Some (ac_boost_timer state),
       doc_timed_heat_active = Some (timed_heat_active state),
       doc_timed_heat_remaining_seconds = Some (timed_heat_remaining_seconds state),
       doc_scheduled_events = Some (JList (scheduled_events state)),
       doc_time_data = Some (JList (time_data state)),
       doc_temp_data = Some (JList (temp_data state)),
       doc_humidity_data = Some (JList (humidity_data state)),
       doc_simulation_time_elapsed = Some (simulation_time_elapsed state) \<rparr>"

definition save_state_to_config :: "system \<Rightarrow> config \<Rightarrow> config" where
  "save_state_to_config sys config_data =
     config_data\<lparr> default_rooms := Some (rooms sys),
                  room_states_cfg :=
                    Some (map (\<lambda>(room_name, state). (room_name, serializable_state state))
                            (room_states sys)) \<rparr>"

subsection \<open>A parser for concrete runs\<close>

text \<open>
  The general results below hold for every parser. Concrete runs use \<open>fromisoformat\<close>, which
  accepts the strings that \<^verbatim>\<open>datetime.isoformat()\<close> writes: \<^verbatim>\<open>YYYY-MM-DDTHH:MM:SS\<close>, optionally
  followed by \<^verbatim>\<open>.ffffff\<close>, optionally followed by a UTC offset \<^verbatim>\<open>+HH:MM\<close> or \<^verbatim>\<open>-HH:MM\<close>; as in
  the library, any character may stand in the place of \<^verbatim>\<open>T\<close>. It raises on every other string
  (the library accepts some further spellings). A naive instant is the integer whose decimal
  digits are those of the timestamp, so that the order of instants is the order of the
  integers.
\<close>

definition digit_value :: "char \<Rightarrow> int option" where
  "digit_value c = map_of (zip ''0123456789'' [0, 1, 2, 3, 4, 5, 6, 7, 8, 9]) c"

definition number_of :: "string \<Rightarrow> int option" where
  "number_of cs =
     foldl (\<lambda>acc c. case acc of
                       None \<Rightarrow> None
                     | Some n \<Rightarrow> (case digit_value c of
                                    None \<Rightarrow> None
                                  | Some d \<Rightarrow> Some (10 * n + d)))
       (Some 0) cs"

definition days_in_month :: "int \<Rightarrow> int \<Rightarrow> int" where
  "days_in_month y m =
     (if m = 2 then (if y mod 4 = 0 \<and> (y mod 100 \<noteq> 0 \<or> y mod 400 = 0) then 29 else 28)
      else if m = 4 \<or> m = 6 \<or> m = 9 \<or> m = 11 then 30 else 31)"

text \<open>The date and time without an offset.\<close>

definition naive_part :: "string \<Rightarrow> int option" where
  "naive_part s =
     (if (length s = 19 \<or> (length s = 26 \<and> s ! 19 = CHR ''.''))
         \<and> s ! 4 = CHR ''-'' \<and> s ! 7 = CHR ''-''
         \<and> s ! 13 = CHR '':'' \<and> s ! 16 = CHR '':''
      then
        (case (number_of (take 4 s), number_of (take 2 (drop 5 s)), number_of (take 2 (drop 8 s)),
               number_of (take 2 (drop 11 s)), number_of (take 2 (drop 14 s)),
               number_of (take 2 (drop 17 s)), number_of (drop 20 s)) of
           (Some y, Some mo, Some d, Some h, Some mi, Some sec, Some us) \<Rightarrow>
             (if 1 \<le> y \<and> 1 \<le> mo \<and> mo \<le> 12 \<and> 1 \<le> d \<and> d \<le> days_in_month y mo
                 \<and> h < 24 \<and> mi < 60 \<and> sec < 60
              then Some ((((((y * 100 + mo) * 100 + d) * 100 + h) * 100 + mi) * 100 + sec)
                          * 1000000 + us)
              else None)
         | _ \<Rightarrow> None)
      else None)"

text \<open>A UTC offset \<^verbatim>\<open>+HH:MM\<close> or \<^verbatim>\<open>-HH:MM\<close>.\<close>

definition offset_ok :: "string \<Rightarrow> bool" where
  "offset_ok off =
     (length off = 6 \<and> (off ! 0 = CHR ''+'' \<or> off ! 0 = CHR ''-'') \<and> off ! 3 = CHR '':''
      \<and> (case (number_of (take 2 (drop 1 off)), number_of (drop 4 off)) of
            (Some h, Some mi) \<Rightarrow> h < 24 \<and> mi < 60
          | _ \<Rightarrow> False))"

definition fromisoformat :: "string \<Rightarrow> int stamp option" where
  "fromisoformat s =
     (if length s = 19 \<or> length s = 26 then map_option Naive (naive_part s)
      else if length s = 25 \<or> length s = 32 then
        (if offset_ok (drop (length s - 6) s)
         then (case naive_part (take (length s - 6) s) of None \<Rightarrow> None | Some t \<Rightarrow> Some Aware)
         else None)
      else None)"

subsection \<open>Predicates of the specification\<close>

definition all_rooms :: "(room_state \<Rightarrow> bool) \<Rightarrow> system \<Rightarrow> bool" where
  "all_rooms P sys = list_all (\<lambda>(room_name, room_state). P room_state) (room_states sys)"

text \<open>\<^verbatim>\<open>self.room_states.get(room_name)\<close>\<close>

definition room_of :: "system \<Rightarrow> string \<Rightarrow> room_state option" where
  "room_of sys room_name = map_of (room_states sys) room_name"

text \<open>The control flags and timers of a room, in the order of the default state.\<close>

definition mode_flags :: "room_state \<Rightarrow> bool \<times> bool \<times> int \<times> bool \<times> int" where
  "mode_flags room_state =
     (heat_on room_state, ac_boost_on room_state, ac_boost_timer room_state,
      timed_heat_active room_state, timed_heat_remaining_seconds room_state)"

text \<open>The legal ranges of the specification.\<close>

definition in_range :: "room_state \<Rightarrow> bool" where
  "in_range room_state =
     (5.0 \<le> temp room_state \<and> temp room_state \<le> 35.0
      \<and> 10.0 \<le> humidity room_state \<and> humidity room_state \<le> 90.0)"

text \<open>At most one of the three flags is true, as the specification words it.\<close>

definition at_most_one_flag :: "room_state \<Rightarrow> bool" where
  "at_most_one_flag room_state =
     (\<not> (heat_on room_state \<and> ac_boost_on room_state)
      \<and> \<not> (heat_on room_state \<and> timed_heat_active room_state)
      \<and> \<not> (ac_boost_on room_state \<and> timed_heat_active room_state))"

text \<open>
  The three modes as \<^verbatim>\<open>_update_button_states\<close> tells them apart: manual heating is
  \<^verbatim>\<open>heat_on and not is_timed_heating\<close>.
\<close>

definition is_manual_heating :: "room_state \<Rightarrow> bool" where
  "is_manual_heating room_state = (heat_on room_state \<and> \<not> timed_heat_active room_state)"

definition at_most_one_mode :: "room_state \<Rightarrow> bool" where
  "at_most_one_mode room_state =
     (\<not> (is_manual_heating room_state \<and> ac_boost_on room_state)
      \<and> \<not> (is_manual_heating room_state \<and> timed_heat_active room_state)
      \<and> \<not> (ac_boost_on room_state \<and> timed_heat_active room_state))"

definition no_active_mode :: "room_state \<Rightarrow> bool" where
  "no_active_mode room_state =
     (\<not> heat_on room_state \<and> \<not> ac_boost_on room_state \<and> \<not> timed_heat_active room_state)"

text \<open>Timed heat keeps \<^verbatim>\<open>heat_on\<close> set: every handler and the tick maintain this.\<close>

definition timed_implies_heat :: "room_state \<Rightarrow> bool" where
  "timed_implies_heat room_state = (timed_heat_active room_state \<longrightarrow> heat_on room_state)"

text \<open>The string parses to a naive timestamp, the kind the tick can compare with its clock.\<close>

definition parses_naive :: "(string \<Rightarrow> 't stamp option) \<Rightarrow> string \<Rightarrow> bool" where
  "parses_naive parse s = (case parse s of Some (Naive t) \<Rightarrow> True | _ \<Rightarrow> False)"

text \<open>
  A well-formed event: it is triggered already, or its start time is present and parses to
  a naive timestamp and it names an action.
\<close>

definition event_ok :: "(string \<Rightarrow> 't stamp option) \<Rightarrow> scheduled_event \<Rightarrow> bool" where
  "event_ok parse event =
     (get_triggered event
      \<or> ((case start_time_iso event of None \<Rightarrow> False | Some s \<Rightarrow> parses_naive parse s)
         \<and> action event \<noteq> None))"

definition room_ok :: "(string \<Rightarrow> 't stamp option) \<Rightarrow> room_state \<Rightarrow> bool" where
  "room_ok parse room_state = list_all (event_ok parse) (scheduled_events room_state)"

text \<open>
  An untriggered event whose start time is missing, does not parse, or parses to an
  offset-aware timestamp: evaluating the loop condition on it raises.
\<close>

definition event_malformed :: "(string \<Rightarrow> 't stamp option) \<Rightarrow> scheduled_event \<Rightarrow> bool" where
  "event_malformed parse event =
     (\<not> get_triggered event
      \<and> (case start_time_iso event of None \<Rightarrow> True | Some s \<Rightarrow> \<not> parses_naive parse s))"

text \<open>The event is due: the loop condition holds for it.\<close>

definition is_due :: "(string \<Rightarrow> 't stamp option) \<Rightarrow> 't::linorder \<Rightarrow> scheduled_event \<Rightarrow> bool" where
  "is_due parse now event = (event_due parse now event = Inr True)"

text \<open>
  The side effects of a list of events applied one after the other in the order of the list
  (an event whose execution raises changes nothing).
\<close>

definition apply_in_order :: "scheduled_event list \<Rightarrow> room_state \<Rightarrow> room_state" where
  "apply_in_order events room_state =
     foldl (\<lambda>st event. case execute_scheduled_event event st of Inl err \<Rightarrow> st | Inr st1 \<Rightarrow> st1)
       room_state events"

text \<open>The event list after a pass of the event loop that marked every due event.\<close>

definition mark_due ::
    "(string \<Rightarrow> 't stamp option) \<Rightarrow> 't::linorder \<Rightarrow> scheduled_event list \<Rightarrow> scheduled_event list" where
  "mark_due parse now events =
     map (\<lambda>event. if is_due parse now event then event\<lparr> triggered := Some True \<rparr> else event) events"

text \<open>The indices of the due events, in insertion order.\<close>

definition due_indices ::
    "(string \<Rightarrow> 't stamp option) \<Rightarrow> 't::linorder \<Rightarrow> scheduled_event list \<Rightarrow> nat list" where
  "due_indices parse now events = filter (\<lambda>i. is_due parse now (events ! i)) [0..<length events]"

text \<open>The histories respect the bound of their deques.\<close>

definition deques_bounded :: "room_state \<Rightarrow> bool" where
  "deques_bounded room_state =
     (length (time_data room_state) \<le> GRAPH_DATA_POINTS
      \<and> length (temp_data room_state) \<le> GRAPH_DATA_POINTS
      \<and> length (humidity_data room_state) \<le> GRAPH_DATA_POINTS)"

text \<open>
  The drift model in the words of the specification: the control effect of the active mode
  and the ambient drift \<open>rate * |target - value| * coeff\<close>, signed toward the target.
\<close>

definition controlEffect_temp :: "room_state \<Rightarrow> real" where
  "controlEffect_temp room_state =
     (if heat_on room_state then 0.2 else if ac_boost_on room_state then - 0.3 else 0)"

definition controlEffect_humidity :: "room_state \<Rightarrow> real" where
  "controlEffect_humidity room_state =
     (if heat_on room_state then 0 else if ac_boost_on room_state then - 0.2 else 0)"

definition ambientDrift :: "real \<Rightarrow> real \<Rightarrow> real \<Rightarrow> real \<Rightarrow> real" where
  "ambientDrift v target rate coeff = sgn (target - v) * (rate * \<bar>target - v\<bar> * coeff)"

definition clamp :: "real \<Rightarrow> real \<Rightarrow> real \<Rightarrow> real" where
  "clamp lo hi v = max lo (min hi v)"

text \<open>The state of a room when the climate step of a tick reads it: after the events and timers.\<close>

definition before_climate ::
    "(string \<Rightarrow> 't stamp option) \<Rightarrow> 't::linorder tick_input \<Rightarrow> room_state \<Rightarrow> room_state" where
  "before_climate parse inp room_state =
     process_timers
       (fst (events_loop parse (now_time inp) (length (scheduled_events room_state)) room_state))"

subsection \<open>Concrete inputs\<close>

definition no_config :: config where
  "no_config = \<lparr> default_rooms = None, room_states_cfg = None \<rparr>"

definition quiet_tick :: "int \<Rightarrow> int tick_input" where
  "quiet_tick t = \<lparr> now_time = t, temp_noise = 0, humidity_noise = 0 \<rparr>"

definition timed_heat_event :: "string \<Rightarrow> int \<Rightarrow> scheduled_event" where
  "timed_heat_event start minutes =
     \<lparr> start_time_iso = Some start,
       action = Some ''start_timed_heat'',
       params = Some \<lparr> duration_minutes = Some minutes \<rparr>,
       triggered = Some False,
       description = Some ''Timed Heat'' \<rparr>"

definition noon :: int where
  "noon = 20240101120000000000"

text \<open>A room in the middle of timed heat, with one scheduled event and two history points.\<close>

definition kitchen_state :: room_state where
  "kitchen_state =
     get_default_room_state
       \<lparr> temp := 20.2, humidity := 49.8, heat_on := True, timed_heat_active := True,
         timed_heat_remaining_seconds := 42,
         scheduled_events := [timed_heat_event ''2024-01-01T12:00:00'' 5],
         time_data := [1, 2], temp_data := [20.1, 20.2], humidity_data := [49.9, 49.8],
         simulation_time_elapsed := 2 \<rparr>"

definition kitchen_system :: system where
  "kitchen_system =
     \<lparr> rooms = [''Kitchen''], current_room = Some ''Kitchen'',
       room_states = [(''Kitchen'', kitchen_state)] \<rparr>"

text \<open>A stored room with one hundred history points and values outside the legal ranges.\<close>

definition long_history_doc :: room_doc where
  "long_history_doc =
     \<lparr> doc_temp = Some 50.0, doc_humidity = Some 5.0, doc_heat_on = None,
       doc_ac_boost_on = None, doc_ac_boost_timer = None, doc_timed_heat_active = None,
       doc_timed_heat_remaining_seconds = None, doc_scheduled_events = None,
       doc_time_data = Some (JList (map int [0..<100])),
       doc_temp_data = Some (JList (replicate 100 50.0)),
       doc_humidity_data = Some (JList (replicate 100 5.0)),
       doc_simulation_time_elapsed = Some 99 \<rparr>"

definition stored_config :: config where
  "stored_config =
     \<lparr> default_rooms = Some [''Kitchen'', ''Attic''],
       room_states_cfg = Some [(''Attic'', long_history_doc)] \<rparr>"

text \<open>A room with two events that are both due at noon.\<close>

definition two_event_state :: room_state where
  "two_event_state =
     get_default_room_state
       \<lparr> scheduled_events := [timed_heat_event ''2024-01-01T11:00:00'' 5,
                              timed_heat_event ''2024-01-01T11:30:00'' 10] \<rparr>"

text \<open>A stored configuration of two rooms, the first with an event whose start is no timestamp.\<close>

definition malformed_doc :: room_doc where
  "malformed_doc =
     \<lparr> doc_temp = None, doc_humidity = None, doc_heat_on = None,
       doc_ac_boost_on = None, doc_ac_boost_timer = None, doc_timed_heat_active = None,
       doc_timed_heat_remaining_seconds = None,
       doc_scheduled_events = Some (JList [timed_heat_event ''tomorrow'' 5]),
       doc_time_data = None, doc_temp_data = None, doc_humidity_data = None,
       doc_simulation_time_elapsed = None \<rparr>"

definition malformed_config :: config where
  "malformed_config =
     \<lparr> default_rooms = Some [''Living Room'', ''Bedroom''],
       room_states_cfg = Some [(''Living Room'', malformed_doc)] \<rparr>"

text \<open>The same stored room between two rooms without events.\<close>

definition malformed_middle_config :: config where
  "malformed_middle_config =
     \<lparr> default_rooms = Some [''Bedroom'', ''Living Room'', ''Kitchen''],
       room_states_cfg = Some [(''Living Room'', malformed_doc)] \<rparr>"

section \<open>Properties\<close>

lemmas sim_constants =
  INITIAL_TEMP_CELSIUS_def INITIAL_HUMIDITY_PERCENT_def AMBIENT_TEMP_TARGET_def
  AMBIENT_HUMIDITY_TARGET_def HEAT_RATE_def COOL_RATE_AC_def AC_HUMIDITY_REDUCTION_RATE_def
  AMBIENT_DRIFT_RATE_TEMP_def BACKGROUND_AMBIENT_DRIFT_RATE_TEMP_def
  AMBIENT_DRIFT_RATE_HUMIDITY_def BACKGROUND_AMBIENT_DRIFT_RATE_HUMIDITY_def
  SIMULATION_TICK_INTERVAL_SECONDS_def GRAPH_DATA_POINTS_def

lemmas fromisoformat_defs =
  fromisoformat_def naive_part_def offset_ok_def number_of_def digit_value_def days_in_month_def

lemmas tick_defs =
  simulation_tick_def process_room_def process_timers_def timed_heat_step_def ac_boost_step_def
  climate_update_def history_update_def Let_def sim_constants deque_append_def
  deque_of_list_def

lemmas handler_defs =
  toggle_heat_on_def toggle_heat_off_def activate_ac_boost_def toggle_timed_heat_def
  on_room_selected_def on_current_room_def toggle_heat_on_state_def toggle_heat_off_state_def
  activate_ac_boost_state_def toggle_timed_heat_state_def

lemmas event_defs =
  events_loop.simps event_due_def get_triggered_def execute_scheduled_event_def get_duration_def
  mark_triggered_def timed_heat_event_def parses_naive_def

subsection \<open>Association lists and the handlers' guard\<close>

lemma update_same: "map_of al k = Some v \<Longrightarrow> AList.update k v al = al"
  by (induction al) (auto split: if_splits)

lemma list_all_update:
  "list_all (\<lambda>(k, v). P v) al \<Longrightarrow> P v \<Longrightarrow> list_all (\<lambda>(k, v). P v) (AList.update k v al)"
  by (induction al) auto

lemma list_all_map_of:
  "list_all (\<lambda>(k, v). P v) al \<Longrightarrow> map_of al k = Some v \<Longrightarrow> P v"
  by (induction al) (auto split: if_splits)

lemma on_current_room_pres:
  assumes "\<And>st. P st \<Longrightarrow> P (f st)" and "all_rooms P sys"
  shows "all_rooms P (on_current_room f sys)"
proof (cases "current_room sys")
  case None
  then show ?thesis using assms(2) by (simp add: on_current_room_def)
next
  case (Some r)
  show ?thesis
  proof (cases "map_of (room_states sys) r")
    case None
    then show ?thesis using Some assms(2) by (simp add: on_current_room_def)
  next
    case (Some st)
    have "P st" using assms(2) Some list_all_map_of unfolding all_rooms_def by fast
    then have "P (f st)" by (rule assms(1))
    then show ?thesis using Some \<open>current_room sys = Some r\<close> assms(2)
      by (simp add: on_current_room_def all_rooms_def list_all_update)
  qed
qed

lemma on_current_room_lookup:
  assumes "current_room sys = Some r" "r \<noteq> []" "map_of (room_states sys) r = Some st"
  shows "map_of (room_states (on_current_room f sys)) = (map_of (room_states sys))(r \<mapsto> f st)"
  using assms by (simp add: on_current_room_def update_conv')

lemma on_current_room_noop:
  assumes "current_room sys = Some r" "map_of (room_states sys) r = Some st" "f st = st"
  shows "on_current_room f sys = sys"
  using assms by (simp add: on_current_room_def update_same)

lemma events_loop_pres:
  assumes ex: "\<And>e st st'. P st \<Longrightarrow> execute_scheduled_event e st = Inr st' \<Longrightarrow> P st'"
    and mk: "\<And>i st. P st \<Longrightarrow> P (mark_triggered i st)"
  shows "P st \<Longrightarrow> P (fst (events_loop parse now n st))"
proof (induction n arbitrary: st)
  case 0
  then show ?case by simp
next
  case (Suc n)
  show ?case
  proof (cases "event_due parse now (scheduled_events st ! n)")
    case (Inl err)
    then show ?thesis using Suc.prems by simp
  next
    case (Inr b)
    show ?thesis
    proof (cases b)
      case False
      then show ?thesis using Inr Suc by simp
    next
      case True
      show ?thesis
      proof (cases "execute_scheduled_event (scheduled_events st ! n) st")
        case (Inl err)
        then show ?thesis using Inr True Suc.prems by simp
      next
        case (Inr st1)
        have "P (mark_triggered n st1)" using ex[OF Suc.prems Inr] mk by blast
        from Suc.IH[OF this] show ?thesis
          using \<open>event_due parse now (scheduled_events st ! n) = Inr b\<close> True Inr
          by (cases "events_loop parse now n (mark_triggered n st1)") simp
      qed
    qed
  qed
qed

lemma process_room_pres:
  assumes ex: "\<And>e st st'. P st \<Longrightarrow> execute_scheduled_event e st = Inr st' \<Longrightarrow> P st'"
    and mk: "\<And>i st. P st \<Longrightarrow> P (mark_triggered i st)"
    and tm: "\<And>st. P st \<Longrightarrow> P (process_timers st)"
    and cl: "\<And>cur tn hn rn st. P st \<Longrightarrow> P (climate_update cur tn hn rn st)"
    and hi: "\<And>cur rn st. P st \<Longrightarrow> P (history_update cur rn st)"
  shows "P st \<Longrightarrow> P (fst (process_room parse inp cur rn st))"
proof -
  assume "P st"
  have "P (fst (events_loop parse (now_time inp) (length (scheduled_events st)) st))"
  proof (rule events_loop_pres[where P = P])
    show "P st" by fact
    show "\<And>e st st'. P st \<Longrightarrow> execute_scheduled_event e st = Inr st' \<Longrightarrow> P st'" by (rule ex)
    show "\<And>i st. P st \<Longrightarrow> P (mark_triggered i st)" by (rule mk)
  qed
  then show ?thesis
  proof (cases "events_loop parse (now_time inp) (length (scheduled_events st)) st")
    case (fields st1 fired err)
    assume "P (fst (events_loop parse (now_time inp) (length (scheduled_events st)) st))"
    then have "P st1" using fields by simp
    then show ?thesis using fields
      by (cases err) (simp_all add: process_room_def tm cl hi)
  qed
qed

lemma rooms_loop_pres:
  assumes pr: "\<And>rn st. P st \<Longrightarrow> P (fst (process_room parse inp cur rn st))"
  shows "list_all (\<lambda>(k, v). P v) rs \<Longrightarrow> list_all (\<lambda>(k, v). P v) (fst (rooms_loop parse inp cur rs))"
proof (induction rs)
  case Nil
  then show ?case by simp
next
  case (Cons a rs)
  obtain rn st where a: "a = (rn, st)" by (cases a)
  obtain st1 fired err where p: "process_room parse inp cur rn st = (st1, fired, err)"
    by (cases "process_room parse inp cur rn st")
  have "P st" using Cons.prems a by simp
  from pr[OF this, of rn] p have "P st1" by simp
  moreover have "list_all (\<lambda>(k, v). P v) (fst (rooms_loop parse inp cur rs))"
    using Cons by simp
  ultimately show ?case using Cons.prems a p
    by (cases err; cases "rooms_loop parse inp cur rs") simp_all
qed

subsection \<open>Invariants of a run\<close>

lemma simulation_tick_pres:
  assumes pr: "\<And>inp cur rn st. P st \<Longrightarrow> P (fst (process_room parse inp cur rn st))"
    and "all_rooms P sys"
  shows "all_rooms P (fst (simulation_tick parse inp sys))"
proof -
  have "list_all (\<lambda>(k, v). P v) (fst (rooms_loop parse inp (current_room sys) (room_states sys)))"
  proof (rule rooms_loop_pres[where P = P])
    show "\<And>rn st. P st \<Longrightarrow> P (fst (process_room parse inp (current_room sys) rn st))"
      by (rule pr)
    show "list_all (\<lambda>(k, v). P v) (room_states sys)"
      using assms(2) by (simp add: all_rooms_def)
  qed
  then show ?thesis
    by (cases "rooms_loop parse inp (current_room sys) (room_states sys)")
       (simp add: simulation_tick_def all_rooms_def)
qed

lemma apply_step_pres:
  assumes pr: "\<And>inp cur rn st. P st \<Longrightarrow> P (fst (process_room parse inp cur rn st))"
    and h1: "\<And>st. P st \<Longrightarrow> P (toggle_heat_on_state st)"
    and h2: "\<And>st. P st \<Longrightarrow> P (toggle_heat_off_state st)"
    and h3: "\<And>st. P st \<Longrightarrow> P (activate_ac_boost_state st)"
    and h4: "\<And>answer st. P st \<Longrightarrow> P (toggle_timed_heat_state answer st)"
    and a: "all_rooms P (fst s)"
  shows "all_rooms P (fst (apply_step parse step s))"
proof (cases s)
  case (Pair sys crash)
  have sys: "all_rooms P sys" using a Pair by simp
  show ?thesis
  proof (cases step)
    case (Tick inp)
    show ?thesis
    proof (cases crash)
      case None
      have "all_rooms P (fst (simulation_tick parse inp sys))"
        by (rule simulation_tick_pres[where P = P]) (erule pr | rule sys)+
      then show ?thesis using Pair Tick None by simp
    next
      case (Some err)
      then show ?thesis using Pair Tick sys by simp
    qed
  next
    case HeatOn
    have "all_rooms P (on_current_room toggle_heat_on_state sys)"
      by (rule on_current_room_pres[where P = P]) (erule h1 | rule sys)+
    then show ?thesis using Pair HeatOn by (simp add: toggle_heat_on_def)
  next
    case HeatOff
    have "all_rooms P (on_current_room toggle_heat_off_state sys)"
      by (rule on_current_room_pres[where P = P]) (erule h2 | rule sys)+
    then show ?thesis using Pair HeatOff by (simp add: toggle_heat_off_def)
  next
    case AcBoost
    have "all_rooms P (on_current_room activate_ac_boost_state sys)"
      by (rule on_current_room_pres[where P = P]) (erule h3 | rule sys)+
    then show ?thesis using Pair AcBoost by (simp add: activate_ac_boost_def)
  next
    case (TimedHeat answer)
    have "all_rooms P (on_current_room (toggle_timed_heat_state answer) sys)"
      by (rule on_current_room_pres[where P = P]) (erule h4 | rule sys)+
    then show ?thesis using Pair TimedHeat by (simp add: toggle_timed_heat_def)
  next
    case (SelectRoom name)
    then show ?thesis using Pair sys by (simp add: on_room_selected_def all_rooms_def)
  qed
qed

lemma run_pres:
  assumes pr: "\<And>inp cur rn st. P st \<Longrightarrow> P (fst (process_room parse inp cur rn st))"
    and h1: "\<And>st. P st \<Longrightarrow> P (toggle_heat_on_state st)"
    and h2: "\<And>st. P st \<Longrightarrow> P (toggle_heat_off_state st)"
    and h3: "\<And>st. P st \<Longrightarrow> P (activate_ac_boost_state st)"
    and h4: "\<And>answer st. P st \<Longrightarrow> P (toggle_timed_heat_state answer st)"
  shows "all_rooms P (fst s) \<Longrightarrow> all_rooms P (fst (run parse steps s))"
proof (induction steps arbitrary: s)
  case Nil
  then show ?case by simp
next
  case (Cons step steps)
  have "all_rooms P (fst (apply_step parse step s))"
    by (rule apply_step_pres[where P = P]) (erule pr h1 h2 h3 h4 | rule Cons.prems)+
  from Cons.IH[OF this] show ?case by simp
qed

subsection \<open>Clamping\<close>

lemma execute_frame:
  assumes "execute_scheduled_event e st = Inr st'"
  shows "temp st' = temp st" "humidity st' = humidity st"
    "scheduled_events st' = scheduled_events st"
    "ac_boost_on st' = ac_boost_on st" "ac_boost_timer st' = ac_boost_timer st"
    "time_data st' = time_data st" "temp_data st' = temp_data st"
    "humidity_data st' = humidity_data st"
    "simulation_time_elapsed st' = simulation_time_elapsed st"
  using assms
  by (auto simp: execute_scheduled_event_def Let_def split: option.splits if_splits)

lemma climate_update_shape:
  "\<exists>t h. climate_update cur tn hn rn st
           = st\<lparr> temp := max 5.0 (min 35.0 t), humidity := max 10.0 (min 90.0 h) \<rparr>"
  unfolding climate_update_def Let_def by blast

lemma in_range_climate_update: "in_range (climate_update cur tn hn rn st)"
proof -
  obtain t h where "climate_update cur tn hn rn st
           = st\<lparr> temp := max 5.0 (min 35.0 t), humidity := max 10.0 (min 90.0 h) \<rparr>"
    using climate_update_shape by blast
  then show ?thesis by (simp add: in_range_def)
qed

lemma in_range_process_timers: "in_range st \<Longrightarrow> in_range (process_timers st)"
  by (simp add: process_timers_def ac_boost_step_def timed_heat_step_def in_range_def Let_def)

lemma in_range_history_update: "in_range st \<Longrightarrow> in_range (history_update cur rn st)"
  by (simp add: history_update_def in_range_def Let_def)

lemma in_range_mark_triggered: "in_range st \<Longrightarrow> in_range (mark_triggered i st)"
  by (simp add: mark_triggered_def in_range_def)

lemma in_range_execute:
  "in_range st \<Longrightarrow> execute_scheduled_event e st = Inr st' \<Longrightarrow> in_range st'"
  by (simp add: in_range_def execute_frame)

lemma in_range_process_room:
  "in_range st \<Longrightarrow> in_range (fst (process_room parse inp cur rn st))"
  by (rule process_room_pres[where P = in_range])
     (erule in_range_execute, assumption, erule in_range_mark_triggered,
      erule in_range_process_timers, rule in_range_climate_update,
      erule in_range_history_update, assumption)

lemma in_range_handlers:
  "in_range st \<Longrightarrow> in_range (toggle_heat_on_state st)"
  "in_range st \<Longrightarrow> in_range (toggle_heat_off_state st)"
  "in_range st \<Longrightarrow> in_range (activate_ac_boost_state st)"
  "in_range st \<Longrightarrow> in_range (toggle_timed_heat_state answer st)"
  by (simp_all add: in_range_def toggle_heat_on_state_def toggle_heat_off_state_def
      activate_ac_boost_state_def toggle_timed_heat_state_def split: option.splits)

text \<open>
  Claim C4. In every run (ticks with any clock reading and any noise, handlers, changes of
  the viewed room) that starts with every room's temperature in \<open>[5, 35]\<close> and humidity in
  \<open>[10, 90]\<close>, every room's temperature and humidity are in these ranges after every step;
  this includes a tick that an exception cut short.
\<close>

theorem clamping_invariant:
  "all_rooms in_range sys \<Longrightarrow> all_rooms in_range (fst (run parse steps (sys, crash)))"
proof -
  assume a: "all_rooms in_range sys"
  show ?thesis
  proof (rule run_pres[where P = in_range])
    show "all_rooms in_range (fst (sys, crash))" using a by simp
  qed (erule in_range_process_room in_range_handlers)+
qed

text \<open>Without a configuration file the dashboard starts with the three fallback rooms.\<close>

lemma init_no_config:
  "init_system no_config =
     \<lparr> rooms = [''Living Room'', ''Bedroom'', ''Kitchen''],
       current_room = Some ''Living Room'',
       room_states = [(''Living Room'', get_default_room_state),
                      (''Bedroom'', get_default_room_state),
                      (''Kitchen'', get_default_room_state)] \<rparr>"
  by (simp add: init_system_def no_config_def load_rooms_def DEFAULT_ROOMS_FALLBACK_def
      load_room_states_def load_room_state_def)

theorem clamping_invariant_witness:
  "all_rooms in_range (init_system no_config)
   \<and> all_rooms in_range
       (fst (run fromisoformat
               [TimedHeat (Some 1), Tick (quiet_tick noon), SelectRoom ''Bedroom'', AcBoost,
                Tick \<lparr> now_time = noon + 1, temp_noise = 0.03, humidity_noise = - 0.08 \<rparr>]
               (init_system no_config, None)))"
proof -
  have h: "all_rooms in_range (init_system no_config)"
    by (simp add: init_no_config all_rooms_def in_range_def get_default_room_state_def
        sim_constants)
  show ?thesis using h clamping_invariant[OF h] by blast
qed

subsection \<open>Mutual exclusion of the modes\<close>

lemma at_most_one_mode_iff:
  "at_most_one_mode st \<longleftrightarrow> (ac_boost_on st \<longrightarrow> \<not> heat_on st \<and> \<not> timed_heat_active st)"
  by (auto simp: at_most_one_mode_def is_manual_heating_def)

lemma one_mode_execute:
  "at_most_one_mode st \<Longrightarrow> execute_scheduled_event e st = Inr st' \<Longrightarrow> at_most_one_mode st'"
  by (auto simp: at_most_one_mode_iff execute_scheduled_event_def Let_def
      split: option.splits if_splits)

lemma one_mode_mark_triggered: "at_most_one_mode st \<Longrightarrow> at_most_one_mode (mark_triggered i st)"
  by (simp add: at_most_one_mode_iff mark_triggered_def)

lemma one_mode_timed_heat_step: "at_most_one_mode st \<Longrightarrow> at_most_one_mode (timed_heat_step st)"
  by (auto simp: at_most_one_mode_iff timed_heat_step_def Let_def)

lemma one_mode_ac_boost_step: "at_most_one_mode st \<Longrightarrow> at_most_one_mode (ac_boost_step st)"
  by (auto simp: at_most_one_mode_iff ac_boost_step_def Let_def)

lemma one_mode_process_timers: "at_most_one_mode st \<Longrightarrow> at_most_one_mode (process_timers st)"
  by (simp add: process_timers_def one_mode_timed_heat_step one_mode_ac_boost_step)

lemma one_mode_climate_update:
  "at_most_one_mode st \<Longrightarrow> at_most_one_mode (climate_update cur tn hn rn st)"
proof -
  assume a: "at_most_one_mode st"
  obtain t h where "climate_update cur tn hn rn st
           = st\<lparr> temp := max 5.0 (min 35.0 t), humidity := max 10.0 (min 90.0 h) \<rparr>"
    using climate_update_shape by blast
  then show ?thesis using a by (simp add: at_most_one_mode_def is_manual_heating_def)
qed

lemma one_mode_history_update:
  "at_most_one_mode st \<Longrightarrow> at_most_one_mode (history_update cur rn st)"
  by (simp add: at_most_one_mode_iff history_update_def Let_def)

lemma one_mode_process_room:
  "at_most_one_mode st \<Longrightarrow> at_most_one_mode (fst (process_room parse inp cur rn st))"
  by (rule process_room_pres[where P = at_most_one_mode])
     (erule one_mode_execute, assumption, erule one_mode_mark_triggered,
      erule one_mode_process_timers, erule one_mode_climate_update,
      erule one_mode_history_update, assumption)

lemma one_mode_handlers:
  "at_most_one_mode st \<Longrightarrow> at_most_one_mode (toggle_heat_on_state st)"
  "at_most_one_mode st \<Longrightarrow> at_most_one_mode (toggle_heat_off_state st)"
  "at_most_one_mode st \<Longrightarrow> at_most_one_mode (activate_ac_boost_state st)"
  "at_most_one_mode st \<Longrightarrow> at_most_one_mode (toggle_timed_heat_state answer st)"
  by (auto simp: at_most_one_mode_iff toggle_heat_on_state_def toggle_heat_off_state_def
      activate_ac_boost_state_def toggle_timed_heat_state_def split: option.splits)

text \<open>
  Claim C1, amended. At most one of the three modes manual heat (\<^verbatim>\<open>heat_on\<close> without timed
  heat), AC boost and timed heat is active in every room after every tick and every handler
  of a run that starts from such a state. Timed heat sets \<^verbatim>\<open>heat_on\<close> as well, so these two
  flags are true together while it runs.
\<close>

theorem mode_exclusion_invariant:
  "all_rooms at_most_one_mode sys
   \<Longrightarrow> all_rooms at_most_one_mode (fst (run parse steps (sys, crash)))"
proof -
  assume a: "all_rooms at_most_one_mode sys"
  show ?thesis
  proof (rule run_pres[where P = at_most_one_mode])
    show "all_rooms at_most_one_mode (fst (sys, crash))" using a by simp
  qed (erule one_mode_process_room one_mode_handlers)+
qed

theorem mode_exclusion_invariant_witness:
  "all_rooms at_most_one_mode (init_system no_config)
   \<and> all_rooms at_most_one_mode
       (fst (run fromisoformat
               [HeatOn, AcBoost, Tick (quiet_tick noon), HeatOff, TimedHeat (Some 2),
                Tick (quiet_tick (noon + 1))]
               (init_system no_config, None)))"
proof -
  have h: "all_rooms at_most_one_mode (init_system no_config)"
    by (simp add: init_no_config all_rooms_def at_most_one_mode_iff get_default_room_state_def)
  show ?thesis using h mode_exclusion_invariant[OF h] by blast
qed

text \<open>
  Claim C1 as stated fails: starting timed heat in the default state sets both
  \<^verbatim>\<open>timed_heat_active\<close> and \<^verbatim>\<open>heat_on\<close>.
\<close>

theorem timed_heat_sets_two_flags:
  "all_rooms at_most_one_flag (init_system no_config)
   \<and> \<not> all_rooms at_most_one_flag (toggle_timed_heat (Some 1) (init_system no_config))"
  by (simp add: init_no_config all_rooms_def at_most_one_flag_def get_default_room_state_def
      toggle_timed_heat_def on_current_room_def toggle_timed_heat_state_def)

subsection \<open>Requesting AC boost\<close>

text \<open>
  Claim C9, amended. For the room shown: when \<^verbatim>\<open>heat_on\<close> or \<^verbatim>\<open>timed_heat_active\<close> is set, a
  request for AC boost changes nothing at all (the boost flag and its timer stay as they
  were, the heating mode stays active); when no heating is active and AC boost is running
  already, the request changes nothing either, so the remaining time is not set back to 30;
  when no mode is active, the request sets \<^verbatim>\<open>ac_boost_on\<close> and the timer to 30 and leaves
  every other room as it was.
\<close>

theorem activate_ac_boost_cases:
  assumes "current_room sys = Some r" and "r \<noteq> []" and "room_of sys r = Some st"
  shows "(heat_on st \<or> timed_heat_active st \<longrightarrow> activate_ac_boost sys = sys)
       \<and> (\<not> heat_on st \<and> \<not> timed_heat_active st \<and> ac_boost_on st
            \<longrightarrow> activate_ac_boost sys = sys)
       \<and> (no_active_mode st
            \<longrightarrow> room_of (activate_ac_boost sys)
                 = (room_of sys)(r \<mapsto> st\<lparr> ac_boost_on := True, ac_boost_timer := 30 \<rparr>))"
proof (intro conjI impI)
  assume "heat_on st \<or> timed_heat_active st"
  then have "activate_ac_boost_state st = st" by (auto simp: activate_ac_boost_state_def)
  then show "activate_ac_boost sys = sys"
    using assms by (simp add: activate_ac_boost_def room_of_def on_current_room_noop)
next
  assume "\<not> heat_on st \<and> \<not> timed_heat_active st \<and> ac_boost_on st"
  then have "activate_ac_boost_state st = st" by (simp add: activate_ac_boost_state_def)
  then show "activate_ac_boost sys = sys"
    using assms by (simp add: activate_ac_boost_def room_of_def on_current_room_noop)
next
  assume "no_active_mode st"
  then have "activate_ac_boost_state st = st\<lparr> ac_boost_on := True, ac_boost_timer := 30 \<rparr>"
    by (simp add: activate_ac_boost_state_def no_active_mode_def)
  then show "room_of (activate_ac_boost sys)
                 = (room_of sys)(r \<mapsto> st\<lparr> ac_boost_on := True, ac_boost_timer := 30 \<rparr>)"
    using assms on_current_room_lookup[of sys r st activate_ac_boost_state]
    by (simp add: activate_ac_boost_def room_of_def fun_eq_iff)
qed

theorem activate_ac_boost_cases_witness:
  "heat_on (get_default_room_state\<lparr> heat_on := True \<rparr>)
   \<and> activate_ac_boost (toggle_heat_on (init_system no_config))
       = toggle_heat_on (init_system no_config)
   \<and> ac_boost_on (get_default_room_state\<lparr> ac_boost_on := True, ac_boost_timer := 30 \<rparr>)
   \<and> activate_ac_boost (activate_ac_boost (init_system no_config))
       = activate_ac_boost (init_system no_config)
   \<and> no_active_mode get_default_room_state
   \<and> room_of (activate_ac_boost (init_system no_config))
       = (room_of (init_system no_config))
           (''Living Room'' \<mapsto>
              get_default_room_state\<lparr> ac_boost_on := True, ac_boost_timer := 30 \<rparr>)"
proof -
  let ?init = "init_system no_config"
  let ?heating = "get_default_room_state\<lparr> heat_on := True \<rparr>"
  let ?boosting = "get_default_room_state\<lparr> ac_boost_on := True, ac_boost_timer := 30 \<rparr>"
  have cur: "current_room ?init = Some ''Living Room''"
    and cur1: "current_room (toggle_heat_on ?init) = Some ''Living Room''"
    and cur2: "current_room (activate_ac_boost ?init) = Some ''Living Room''"
    by (simp_all add: init_no_config handler_defs)
  have r0: "room_of ?init ''Living Room'' = Some get_default_room_state"
    by (simp add: init_no_config room_of_def)
  have r1: "room_of (toggle_heat_on ?init) ''Living Room'' = Some ?heating"
    by (simp add: init_no_config room_of_def handler_defs get_default_room_state_def)
  have r2: "room_of (activate_ac_boost ?init) ''Living Room'' = Some ?boosting"
    by (simp add: init_no_config room_of_def handler_defs get_default_room_state_def)
  have f1: "heat_on ?heating" by simp
  have f2: "\<not> heat_on ?boosting \<and> \<not> timed_heat_active ?boosting \<and> ac_boost_on ?boosting"
    by (simp add: get_default_room_state_def)
  have f3: "no_active_mode get_default_room_state"
    by (simp add: no_active_mode_def get_default_room_state_def)
  have ne: "''Living Room'' \<noteq> []" by simp
  show ?thesis
    using activate_ac_boost_cases[OF cur1 ne r1] activate_ac_boost_cases[OF cur2 ne r2]
      activate_ac_boost_cases[OF cur ne r0] f1 f2 f3
    by blast
qed

text \<open>
  Claim C9 as stated fails: with no heating active but a boost running (one tick after it
  was requested), a second request leaves 29 seconds on the timer instead of setting 30.
\<close>

theorem ac_boost_request_keeps_timer:
  "map_option mode_flags
     (room_of (fst (run fromisoformat [AcBoost, Tick (quiet_tick noon)]
                      (init_system no_config, None))) ''Living Room'')
     = Some (False, True, 29, False, 0)
   \<and> map_option mode_flags
       (room_of (fst (run fromisoformat [AcBoost, Tick (quiet_tick noon), AcBoost]
                        (init_system no_config, None))) ''Living Room'')
     = Some (False, True, 29, False, 0)"
  by (simp add: init_no_config get_default_room_state_def tick_defs handler_defs quiet_tick_def
      room_of_def mode_flags_def)

subsection \<open>The drift model\<close>

lemma process_timers_climate:
  "temp (process_timers st) = temp st" "humidity (process_timers st) = humidity st"
  by (simp_all add: process_timers_def ac_boost_step_def timed_heat_step_def Let_def)

lemma history_update_climate:
  "temp (history_update cur rn st) = temp st" "humidity (history_update cur rn st) = humidity st"
  by (simp_all add: history_update_def Let_def)

lemma events_loop_climate:
  "temp (fst (events_loop parse now n st)) = temp st
   \<and> humidity (fst (events_loop parse now n st)) = humidity st"
proof -
  have "(\<lambda>s. temp s = temp st \<and> humidity s = humidity st) (fst (events_loop parse now n st))"
    by (rule events_loop_pres[where P = "\<lambda>s. temp s = temp st \<and> humidity s = humidity st"])
       (simp_all add: execute_frame mark_triggered_def)
  then show ?thesis by simp
qed

lemma before_climate_climate:
  "temp (before_climate parse inp st) = temp st"
  "humidity (before_climate parse inp st) = humidity st"
  by (simp_all add: before_climate_def process_timers_climate events_loop_climate)

lemma process_room_finished:
  assumes "process_room parse inp cur rn st = (st', fired, None)"
  shows "st' = history_update cur rn
                 (climate_update cur (temp_noise inp) (humidity_noise inp) rn
                    (before_climate parse inp st))"
proof (cases "events_loop parse (now_time inp) (length (scheduled_events st)) st")
  case (fields st1 fired1 err)
  then show ?thesis using assms
    by (cases err) (simp_all add: process_room_def before_climate_def)
qed

lemma drift_signed:
  "(if v < T then c + r * \<bar>T - v\<bar> * k else if T < v then c - r * \<bar>v - T\<bar> * k else c)
     = c + ambientDrift v T r k"
  by (simp add: ambientDrift_def)

lemma climate_update_temp:
  "temp (climate_update cur tn hn rn st)
     = clamp 5.0 35.0
         (temp st + (controlEffect_temp st
                     + ambientDrift (temp st) 22.0 (if Some rn \<noteq> cur then 0.02 else 0.05) 0.15
                     + (if Some rn = cur then tn else 0)))"
  unfolding climate_update_def Let_def drift_signed
  by (simp add: clamp_def controlEffect_temp_def sim_constants)

lemma climate_update_humidity:
  "humidity (climate_update cur tn hn rn st)
     = clamp 10.0 90.0
         (humidity st + (controlEffect_humidity st
                     + ambientDrift (humidity st) 45.0 (if Some rn \<noteq> cur then 0.04 else 0.1) 0.15
                     + (if Some rn = cur then hn else 0)))"
  unfolding climate_update_def Let_def drift_signed
  by (simp add: clamp_def controlEffect_humidity_def sim_constants)


text \<open>
  Claim C8. In a tick that completes for a room, the new temperature is the old one plus
  the control effect (+0.2 with heat on, otherwise -0.3 with AC boost on, otherwise 0; the
  flags are read after the events and timers of the tick) plus the ambient drift
  \<open>rate * |22 - temp| * 0.15\<close> signed toward 22, clamped to \<open>[5, 35]\<close>; the humidity
  likewise with control effect -0.2 under AC boost, target 45 and range \<open>[10, 90]\<close>. A room
  that is not viewed uses the rates 0.02 and 0.04 and no noise; the viewed room uses 0.05
  and 0.1 and adds the noise drawn.
\<close>

theorem climate_change_model:
  assumes "process_room parse inp cur rn st = (st', fired, None)"
  shows "(Some rn \<noteq> cur \<longrightarrow>
            temp st' = clamp 5.0 35.0
                         (temp st + (controlEffect_temp (before_climate parse inp st)
                                     + ambientDrift (temp st) 22.0 0.02 0.15))
          \<and> humidity st' = clamp 10.0 90.0
                         (humidity st + (controlEffect_humidity (before_climate parse inp st)
                                         + ambientDrift (humidity st) 45.0 0.04 0.15)))
       \<and> (Some rn = cur \<longrightarrow>
            temp st' = clamp 5.0 35.0
                         (temp st + (controlEffect_temp (before_climate parse inp st)
                                     + ambientDrift (temp st) 22.0 0.05 0.15
                                     + temp_noise inp))
          \<and> humidity st' = clamp 10.0 90.0
                         (humidity st + (controlEffect_humidity (before_climate parse inp st)
                                         + ambientDrift (humidity st) 45.0 0.1 0.15
                                         + humidity_noise inp)))"
proof -
  let ?st1 = "before_climate parse inp st"
  have st': "st' = history_update cur rn
                     (climate_update cur (temp_noise inp) (humidity_noise inp) rn ?st1)"
    using assms by (rule process_room_finished)
  have t: "temp st' = temp (climate_update cur (temp_noise inp) (humidity_noise inp) rn ?st1)"
    and h: "humidity st'
              = humidity (climate_update cur (temp_noise inp) (humidity_noise inp) rn ?st1)"
    by (simp_all add: st' history_update_climate)
  show ?thesis
    unfolding t h climate_update_temp climate_update_humidity before_climate_climate
    by simp
qed

theorem climate_change_model_witness:
  "process_room fromisoformat (quiet_tick noon) (Some ''Living Room'') ''Kitchen''
     get_default_room_state
     = (get_default_room_state\<lparr> temp := 20.006, humidity := 49.97 \<rparr>, [], None)
   \<and> Some ''Kitchen'' \<noteq> Some ''Living Room''
   \<and> temp (get_default_room_state\<lparr> temp := 20.006, humidity := 49.97 \<rparr>)
       = clamp 5.0 35.0
           (20.0 + (controlEffect_temp
                      (before_climate fromisoformat (quiet_tick noon) get_default_room_state)
                    + ambientDrift 20.0 22.0 0.02 0.15))
   \<and> humidity (get_default_room_state\<lparr> temp := 20.006, humidity := 49.97 \<rparr>)
       = clamp 10.0 90.0
           (50.0 + (controlEffect_humidity
                      (before_climate fromisoformat (quiet_tick noon) get_default_room_state)
                    + ambientDrift 50.0 45.0 0.04 0.15))"
proof -
  have p: "process_room fromisoformat (quiet_tick noon) (Some ''Living Room'') ''Kitchen''
             get_default_room_state
           = (get_default_room_state\<lparr> temp := 20.006, humidity := 49.97 \<rparr>, [], None)"
    by (simp add: get_default_room_state_def tick_defs quiet_tick_def)
  have t: "temp get_default_room_state = 20.0" and h: "humidity get_default_room_state = 50.0"
    by (simp_all add: get_default_room_state_def sim_constants)
  show ?thesis using climate_change_model[OF p] p t h by simp
qed

subsection \<open>Saving and loading\<close>

lemma deque_of_list_id: "length xs \<le> GRAPH_DATA_POINTS \<Longrightarrow> deque_of_list xs = xs"
  by (simp add: deque_of_list_def)

lemma load_serializable_state:
  "deques_bounded st \<Longrightarrow> load_room_state (Some (serializable_state st)) = st"
  by (simp add: load_room_state_def serializable_state_def merged_def load_deque_def
      load_events_def deques_bounded_def deque_of_list_id)

lemma map_of_foldl_update:
  "map_of (foldl (\<lambda>acc k. AList.update k (f k) acc) acc0 ks) r
     = (if r \<in> set ks then Some (f r) else map_of acc0 r)"
  by (induction ks arbitrary: acc0) (simp_all add: update_conv')

lemma load_room_states_lookup:
  "map_of (load_room_states rs persisted) r
     = (if r \<in> set rs then Some (load_room_state (map_of persisted r)) else None)"
  by (simp add: load_room_states_def map_of_foldl_update)

lemma map_of_serialized:
  "map_of (map (\<lambda>(room_name, state). (room_name, serializable_state state)) al) r
     = map_option serializable_state (map_of al r)"
  by (induction al) auto

text \<open>
  Claim C7. Saving the system and loading what was saved gives back the room list and, for
  every room of the list, the very state that was saved: control flags, timers, scheduled
  events, histories in their order (and temperature and humidity). The histories of a state
  in memory are deques and hold at most 60 entries. A stored history that is a longer list
  is cut to its last 60 entries, in their order.
\<close>

theorem save_load_round_trip:
  assumes "room_name \<in> set (rooms sys)" and "room_of sys room_name = Some st"
    and "deques_bounded st"
  shows "rooms (init_system (save_state_to_config sys config_data)) = rooms sys
       \<and> room_of (init_system (save_state_to_config sys config_data)) room_name = Some st
       \<and> (doc_time_data doc = Some (JList ts)
            \<longrightarrow> time_data (load_room_state (Some doc)) = drop (length ts - 60) ts
              \<and> length (time_data (load_room_state (Some doc))) = min 60 (length ts))
       \<and> (doc_temp_data doc = Some (JList xs)
            \<longrightarrow> temp_data (load_room_state (Some doc)) = drop (length xs - 60) xs
              \<and> length (temp_data (load_room_state (Some doc))) = min 60 (length xs))
       \<and> (doc_humidity_data doc = Some (JList ys)
            \<longrightarrow> humidity_data (load_room_state (Some doc)) = drop (length ys - 60) ys
              \<and> length (humidity_data (load_room_state (Some doc))) = min 60 (length ys))"
proof -
  have ne: "rooms sys \<noteq> []" using assms(1) by auto
  have rs: "rooms (init_system (save_state_to_config sys config_data)) = rooms sys"
    using ne by (simp add: init_system_def save_state_to_config_def load_rooms_def Let_def)
  have "room_of (init_system (save_state_to_config sys config_data)) room_name
          = Some (load_room_state (Some (serializable_state st)))"
    using assms(1,2) ne
    by (simp add: init_system_def save_state_to_config_def load_rooms_def Let_def room_of_def
        load_room_states_lookup map_of_serialized)
  then have st: "room_of (init_system (save_state_to_config sys config_data)) room_name = Some st"
    using assms(3) by (simp add: load_serializable_state)
  have cap: "\<And>zs :: 'a list. length (drop (length zs - 60) zs) = min 60 (length zs)"
    by auto
  show ?thesis
    using rs st
    by (auto simp: load_room_state_def load_deque_def deque_of_list_def GRAPH_DATA_POINTS_def)
qed


theorem save_load_round_trip_witness:
  "''Kitchen'' \<in> set (rooms kitchen_system)
   \<and> room_of kitchen_system ''Kitchen'' = Some kitchen_state
   \<and> deques_bounded kitchen_state
   \<and> rooms (init_system (save_state_to_config kitchen_system no_config)) = [''Kitchen'']
   \<and> room_of (init_system (save_state_to_config kitchen_system no_config)) ''Kitchen''
       = Some kitchen_state
   \<and> doc_time_data long_history_doc = Some (JList (map int [0..<100]))
   \<and> time_data (load_room_state (Some long_history_doc)) = map int [40..<100]
   \<and> length (time_data (load_room_state (Some long_history_doc))) = 60"
proof -
  have a: "''Kitchen'' \<in> set (rooms kitchen_system)"
    and b: "room_of kitchen_system ''Kitchen'' = Some kitchen_state"
    and r: "rooms kitchen_system = [''Kitchen'']"
    by (simp_all add: kitchen_system_def room_of_def)
  have c: "deques_bounded kitchen_state"
    by (simp add: deques_bounded_def kitchen_state_def GRAPH_DATA_POINTS_def)
  have d: "doc_time_data long_history_doc = Some (JList (map int [0..<100]))"
    by (simp add: long_history_doc_def)
  have e: "drop (length (map int [0..<100]) - 60) (map int [0..<100]) = map int [40..<100]"
    by (simp add: drop_map)
  show ?thesis
    using save_load_round_trip[OF a b c, of no_config long_history_doc "map int [0..<100]"]
      a b c d e r
    by simp
qed

subsection \<open>Loading does not validate\<close>

lemma process_room_raised:
  assumes "process_room parse inp cur rn st = (st', fired, Some err)"
  shows "temp st' = temp st \<and> humidity st' = humidity st"
proof (cases "events_loop parse (now_time inp) (length (scheduled_events st)) st")
  case (fields st1 fired1 err1)
  have "temp (fst (events_loop parse (now_time inp) (length (scheduled_events st)) st)) = temp st
      \<and> humidity (fst (events_loop parse (now_time inp) (length (scheduled_events st)) st))
          = humidity st"
    by (rule events_loop_climate)
  then show ?thesis using assms fields
    by (cases err1) (simp_all add: process_room_def)
qed

lemma process_room_finished_in_range:
  assumes "process_room parse inp cur rn st = (st', fired, None)"
  shows "in_range st'"
  unfolding process_room_finished[OF assms]
  by (rule in_range_history_update) (rule in_range_climate_update)

lemma handlers_climate:
  "temp (toggle_heat_on_state st) = temp st \<and> humidity (toggle_heat_on_state st) = humidity st"
  "temp (toggle_heat_off_state st) = temp st \<and> humidity (toggle_heat_off_state st) = humidity st"
  "temp (activate_ac_boost_state st) = temp st
   \<and> humidity (activate_ac_boost_state st) = humidity st"
  "temp (toggle_timed_heat_state answer st) = temp st
   \<and> humidity (toggle_timed_heat_state answer st) = humidity st"
  by (simp_all add: toggle_heat_on_state_def toggle_heat_off_state_def
      activate_ac_boost_state_def toggle_timed_heat_state_def split: option.splits)

text \<open>
  Claim C10. A stored temperature and humidity are copied into the room state as they are,
  so the loaded state is in the legal ranges exactly when the stored values are. No handler
  changes that; a tick that completes for the room puts both values into their ranges, and
  a tick that raises while processing the room leaves them as they were.
\<close>

theorem load_without_validation:
  assumes "room_name \<in> set (load_rooms config_data)"
    and "room_states_cfg config_data = Some persisted"
    and "map_of persisted room_name = Some doc"
    and "doc_temp doc = Some t" and "doc_humidity doc = Some h"
  shows "(\<exists>st. room_of (init_system config_data) room_name = Some st
              \<and> temp st = t \<and> humidity st = h
              \<and> (in_range st \<longleftrightarrow> 5.0 \<le> t \<and> t \<le> 35.0 \<and> 10.0 \<le> h \<and> h \<le> 90.0)
              \<and> in_range (toggle_heat_on_state st) = in_range st
              \<and> in_range (toggle_heat_off_state st) = in_range st
              \<and> in_range (activate_ac_boost_state st) = in_range st
              \<and> in_range (toggle_timed_heat_state answer st) = in_range st
              \<and> (\<forall>st' fired. process_room parse inp cur room_name st = (st', fired, None)
                     \<longrightarrow> in_range st')
              \<and> (\<forall>st' fired err. process_room parse inp cur room_name st = (st', fired, Some err)
                     \<longrightarrow> in_range st' = in_range st))"
proof -
  let ?st = "load_room_state (Some doc)"
  have look: "room_of (init_system config_data) room_name = Some ?st"
    using assms(1-3)
    by (simp add: init_system_def Let_def room_of_def load_room_states_lookup)
  have t: "temp ?st = t" and h: "humidity ?st = h"
    using assms(4,5) by (simp_all add: load_room_state_def merged_def)
  have r: "in_range ?st \<longleftrightarrow> 5.0 \<le> t \<and> t \<le> 35.0 \<and> 10.0 \<le> h \<and> h \<le> 90.0"
    by (simp add: in_range_def t h)
  have hd: "in_range (toggle_heat_on_state ?st) = in_range ?st"
    "in_range (toggle_heat_off_state ?st) = in_range ?st"
    "in_range (activate_ac_boost_state ?st) = in_range ?st"
    "in_range (toggle_timed_heat_state answer ?st) = in_range ?st"
    by (simp_all add: in_range_def handlers_climate)
  have ok: "\<forall>st' fired. process_room parse inp cur room_name ?st = (st', fired, None)
              \<longrightarrow> in_range st'"
    using process_room_finished_in_range by blast
  have bad: "\<forall>st' fired err. process_room parse inp cur room_name ?st = (st', fired, Some err)
              \<longrightarrow> in_range st' = in_range ?st"
  proof (intro allI impI)
    fix st' fired err
    assume "process_room parse inp cur room_name ?st = (st', fired, Some err)"
    from process_room_raised[OF this] show "in_range st' = in_range ?st"
      by (simp add: in_range_def)
  qed
  show ?thesis using look t h r hd ok bad by blast
qed


theorem load_without_validation_witness:
  "''Attic'' \<in> set (load_rooms stored_config)
   \<and> room_states_cfg stored_config = Some [(''Attic'', long_history_doc)]
   \<and> map_of [(''Attic'', long_history_doc)] ''Attic'' = Some long_history_doc
   \<and> doc_temp long_history_doc = Some 50.0 \<and> doc_humidity long_history_doc = Some 5.0
   \<and> map_option temp (room_of (init_system stored_config) ''Attic'') = Some 50.0
   \<and> map_option humidity (room_of (init_system stored_config) ''Attic'') = Some 5.0
   \<and> map_option in_range (room_of (init_system stored_config) ''Attic'') = Some False"
proof -
  have a: "''Attic'' \<in> set (load_rooms stored_config)"
    and c: "room_states_cfg stored_config = Some [(''Attic'', long_history_doc)]"
    by (simp_all add: stored_config_def load_rooms_def)
  have d: "map_of [(''Attic'', long_history_doc)] ''Attic'' = Some long_history_doc" by simp
  have e: "doc_temp long_history_doc = Some 50.0" and f: "doc_humidity long_history_doc = Some 5.0"
    by (simp_all add: long_history_doc_def)
  from load_without_validation[OF a c d e f]
  obtain st where "room_of (init_system stored_config) ''Attic'' = Some st"
    and "temp st = 50.0" and "humidity st = 5.0"
    and "in_range st \<longleftrightarrow> (5.0::real) \<le> 50.0 \<and> (50.0::real) \<le> 35.0
           \<and> (10.0::real) \<le> 5.0 \<and> (5.0::real) \<le> 90.0"
    by blast
  then show ?thesis using a c d e f by simp
qed

subsection \<open>The event loop\<close>

lemma events_loop_Suc_raise:
  "event_due parse now (scheduled_events st ! i) = Inl err
   \<Longrightarrow> events_loop parse now (Suc i) st = (st, [], Some err)"
  by simp

lemma events_loop_Suc_skip:
  "event_due parse now (scheduled_events st ! i) = Inr False
   \<Longrightarrow> events_loop parse now (Suc i) st = events_loop parse now i st"
  by simp

lemma events_loop_Suc_exec_raise:
  "event_due parse now (scheduled_events st ! i) = Inr True
   \<Longrightarrow> execute_scheduled_event (scheduled_events st ! i) st = Inl err
   \<Longrightarrow> events_loop parse now (Suc i) st = (st, [], Some err)"
  by simp

lemma events_loop_Suc_exec:
  "event_due parse now (scheduled_events st ! i) = Inr True
   \<Longrightarrow> execute_scheduled_event (scheduled_events st ! i) st = Inr st1
   \<Longrightarrow> events_loop parse now i (mark_triggered i st1) = (st2, fired, err)
   \<Longrightarrow> events_loop parse now (Suc i) st = (st2, i # fired, err)"
  by simp

lemma events_mark_triggered:
  "scheduled_events (mark_triggered i st)
     = (scheduled_events st)[i := (scheduled_events st ! i)\<lparr> triggered := Some True \<rparr>]"
  by (simp add: mark_triggered_def)

lemma is_due_untriggered: "is_due parse now e \<Longrightarrow> \<not> get_triggered e"
  by (auto simp: is_due_def event_due_def split: if_splits)

lemma triggered_not_due: "get_triggered e \<Longrightarrow> event_due parse now e = Inr False"
  by (simp add: event_due_def)

lemma get_triggered_marked: "get_triggered (e\<lparr> triggered := Some True \<rparr>)"
  by (simp add: get_triggered_def)

text \<open>What a pass of the event loop does to the event list, whether or not it raises.\<close>

lemma events_loop_events:
  assumes "events_loop parse now n st = (st', fired, err)"
    and "n \<le> length (scheduled_events st)"
  shows "length (scheduled_events st') = length (scheduled_events st)
       \<and> (\<forall>i<length (scheduled_events st).
            scheduled_events st' ! i
              = (if i \<in> set fired then (scheduled_events st ! i)\<lparr> triggered := Some True \<rparr>
                 else scheduled_events st ! i))
       \<and> (\<forall>i\<in>set fired. i < n \<and> is_due parse now (scheduled_events st ! i))
       \<and> distinct fired
       \<and> (err = None \<longrightarrow> (\<forall>i<n. is_due parse now (scheduled_events st ! i) \<longrightarrow> i \<in> set fired))"
  using assms
proof (induction n arbitrary: st st' fired err)
  case 0
  then show ?case by simp
next
  case (Suc n)
  let ?evs = "scheduled_events st"
  let ?e = "?evs ! n"
  have n: "n < length ?evs" using Suc.prems(2) by simp
  show ?case
  proof (cases "event_due parse now ?e")
    case (Inl e1)
    then show ?thesis using Suc.prems(1) by (auto simp: is_due_def)
  next
    case (Inr b)
    show ?thesis
    proof (cases b)
      case False
      have "events_loop parse now n st = (st', fired, err)"
        using Suc.prems(1) Inr False by simp
      from Suc.IH[OF this] n
      have ih: "length (scheduled_events st') = length ?evs"
        "\<forall>i<length ?evs. scheduled_events st' ! i
              = (if i \<in> set fired then (?evs ! i)\<lparr> triggered := Some True \<rparr> else ?evs ! i)"
        "\<forall>i\<in>set fired. i < n \<and> is_due parse now (?evs ! i)"
        "distinct fired"
        "err = None \<longrightarrow> (\<forall>i<n. is_due parse now (?evs ! i) \<longrightarrow> i \<in> set fired)"
        by simp_all
      have nd: "\<not> is_due parse now ?e" using Inr False by (simp add: is_due_def)
      have "\<forall>i\<in>set fired. i < Suc n \<and> is_due parse now (?evs ! i)"
        using ih(3) by auto
      moreover have "err = None \<longrightarrow> (\<forall>i<Suc n. is_due parse now (?evs ! i) \<longrightarrow> i \<in> set fired)"
        using ih(5) nd by (auto simp: less_Suc_eq)
      ultimately show ?thesis using ih(1,2,4) by blast
    next
      case True
      have due: "is_due parse now ?e" using Inr True by (simp add: is_due_def)
      show ?thesis
      proof (cases "execute_scheduled_event ?e st")
        case (Inl e1)
        then show ?thesis using Suc.prems(1) Inr True by auto
      next
        case (Inr st1)
        have ev1: "scheduled_events st1 = ?evs" using Inr by (rule execute_frame(3))
        let ?st2 = "mark_triggered n st1"
        have ev2: "scheduled_events ?st2 = ?evs[n := ?e\<lparr> triggered := Some True \<rparr>]"
          by (simp add: events_mark_triggered ev1)
        obtain st3 fired3 err3 where r: "events_loop parse now n ?st2 = (st3, fired3, err3)"
          by (cases "events_loop parse now n ?st2")
        have res: "st' = st3" "fired = n # fired3" "err = err3"
          using Suc.prems(1) \<open>event_due parse now ?e = Inr b\<close> True Inr r by simp_all
        have "n \<le> length (scheduled_events ?st2)" using n ev2 by simp
        from Suc.IH[OF r this]
        have ih: "length (scheduled_events st3) = length ?evs"
          "\<forall>i<length ?evs. scheduled_events st3 ! i
              = (if i \<in> set fired3
                 then (?evs[n := ?e\<lparr> triggered := Some True \<rparr>] ! i)\<lparr> triggered := Some True \<rparr>
                 else ?evs[n := ?e\<lparr> triggered := Some True \<rparr>] ! i)"
          "\<forall>i\<in>set fired3. i < n
                \<and> is_due parse now (?evs[n := ?e\<lparr> triggered := Some True \<rparr>] ! i)"
          "distinct fired3"
          "err3 = None \<longrightarrow> (\<forall>i<n. is_due parse now (?evs[n := ?e\<lparr> triggered := Some True \<rparr>] ! i)
                                 \<longrightarrow> i \<in> set fired3)"
          by (simp_all add: ev2)
        have lt: "\<forall>i\<in>set fired3. i < n" using ih(3) by blast
        then have nn: "n \<notin> set fired3" by blast
        have c1: "length (scheduled_events st') = length ?evs" using ih(1) res by simp
        have c2: "\<forall>i<length ?evs. scheduled_events st' ! i
              = (if i \<in> set fired then (?evs ! i)\<lparr> triggered := Some True \<rparr> else ?evs ! i)"
        proof (intro allI impI)
          fix i assume i: "i < length ?evs"
          show "scheduled_events st' ! i
              = (if i \<in> set fired then (?evs ! i)\<lparr> triggered := Some True \<rparr> else ?evs ! i)"
          proof (cases "i = n")
            case True
            then show ?thesis using ih(2) i nn res n by simp
          next
            case False
            then show ?thesis using ih(2) i res by simp
          qed
        qed
        have c3: "\<forall>i\<in>set fired. i < Suc n \<and> is_due parse now (?evs ! i)"
        proof
          fix i assume "i \<in> set fired"
          then consider "i = n" | "i \<in> set fired3" using res by auto
          then show "i < Suc n \<and> is_due parse now (?evs ! i)"
          proof cases
            case 1
            then show ?thesis using due by simp
          next
            case 2
            then have "i < n" using lt by blast
            then show ?thesis using ih(3) 2 by auto
          qed
        qed
        have c4: "distinct fired" using ih(4) nn res by simp
        have c5: "err = None \<longrightarrow> (\<forall>i<Suc n. is_due parse now (?evs ! i) \<longrightarrow> i \<in> set fired)"
        proof (intro impI allI)
          fix i assume e: "err = None" and i: "i < Suc n" and d: "is_due parse now (?evs ! i)"
          show "i \<in> set fired"
          proof (cases "i = n")
            case True
            then show ?thesis using res by simp
          next
            case False
            then have "i < n" using i by simp
            then show ?thesis using ih(5) e d res False by auto
          qed
        qed
        show ?thesis using c1 c2 c3 c4 c5 by blast
      qed
    qed
  qed
qed

lemma events_after_events_loop:
  "scheduled_events (process_timers st) = scheduled_events st"
  "scheduled_events (history_update cur rn st) = scheduled_events st"
  by (simp_all add: process_timers_def ac_boost_step_def timed_heat_step_def
      history_update_def Let_def)

lemma events_climate_update:
  "scheduled_events (climate_update cur tn hn rn st) = scheduled_events st"
proof -
  obtain t h where "climate_update cur tn hn rn st
           = st\<lparr> temp := max 5.0 (min 35.0 t), humidity := max 10.0 (min 90.0 h) \<rparr>"
    using climate_update_shape by blast
  then show ?thesis by simp
qed

lemma process_room_events:
  assumes "process_room parse inp cur rn st = (st', fired, err)"
  shows "\<exists>st1. events_loop parse (now_time inp) (length (scheduled_events st)) st
                 = (st1, fired, err)
              \<and> scheduled_events st' = scheduled_events st1"
proof (cases "events_loop parse (now_time inp) (length (scheduled_events st)) st")
  case (fields st1 fired1 err1)
  then show ?thesis using assms
    by (cases err1)
       (auto simp: process_room_def events_after_events_loop events_climate_update)
qed

text \<open>What a tick does to the event list of a room.\<close>

lemma process_room_marks:
  assumes "process_room parse inp cur rn st = (st', fired, err)"
  shows "length (scheduled_events st') = length (scheduled_events st)
       \<and> (\<forall>i<length (scheduled_events st).
            scheduled_events st' ! i
              = (if i \<in> set fired then (scheduled_events st ! i)\<lparr> triggered := Some True \<rparr>
                 else scheduled_events st ! i))
       \<and> (\<forall>i\<in>set fired. i < length (scheduled_events st)
                           \<and> is_due parse (now_time inp) (scheduled_events st ! i))
       \<and> distinct fired
       \<and> (err = None \<longrightarrow> (\<forall>i<length (scheduled_events st).
                               is_due parse (now_time inp) (scheduled_events st ! i)
                               \<longrightarrow> i \<in> set fired))"
proof -
  obtain st1 where l: "events_loop parse (now_time inp) (length (scheduled_events st)) st
                 = (st1, fired, err)"
    and e: "scheduled_events st' = scheduled_events st1"
    using process_room_events[OF assms] by blast
  show ?thesis using events_loop_events[OF l] e by simp
qed

text \<open>Over the ticks of a run, no index is executed twice.\<close>

lemma room_ticks_fired:
  "room_ticks parse cur rn inps st = (st', fireds, err)
   \<Longrightarrow> distinct (concat fireds)
       \<and> (\<forall>i\<in>set (concat fireds). i < length (scheduled_events st)
                                    \<and> \<not> get_triggered (scheduled_events st ! i))"
proof (induction inps arbitrary: st st' fireds err)
  case Nil
  then show ?case by simp
next
  case (Cons inp inps)
  obtain st1 fired1 err1 where p: "process_room parse inp cur rn st = (st1, fired1, err1)"
    by (cases "process_room parse inp cur rn st")
  note m = process_room_marks[OF p]
  have f1: "\<forall>i\<in>set fired1. i < length (scheduled_events st)
                           \<and> \<not> get_triggered (scheduled_events st ! i)"
    using m is_due_untriggered by blast
  show ?case
  proof (cases err1)
    case (Some e1)
    then have "fireds = [fired1]" using Cons.prems p by simp
    then show ?thesis using m f1 by simp
  next
    case None
    obtain st2 fireds2 err2 where r: "room_ticks parse cur rn inps st1 = (st2, fireds2, err2)"
      by (cases "room_ticks parse cur rn inps st1")
    have fs: "fireds = fired1 # fireds2" using Cons.prems p None r by simp
    from Cons.IH[OF r]
    have ih: "distinct (concat fireds2)"
      "\<forall>i\<in>set (concat fireds2). i < length (scheduled_events st1)
                                    \<and> \<not> get_triggered (scheduled_events st1 ! i)"
      by simp_all
    have later: "\<forall>i\<in>set (concat fireds2). i \<notin> set fired1
                   \<and> i < length (scheduled_events st)
                   \<and> \<not> get_triggered (scheduled_events st ! i)"
    proof
      fix i assume i: "i \<in> set (concat fireds2)"
      then have lt: "i < length (scheduled_events st)"
        and nt: "\<not> get_triggered (scheduled_events st1 ! i)"
        using ih(2) m by auto
      have eq: "scheduled_events st1 ! i
              = (if i \<in> set fired1 then (scheduled_events st ! i)\<lparr> triggered := Some True \<rparr>
                 else scheduled_events st ! i)"
        using m lt by blast
      have "i \<notin> set fired1" using nt eq get_triggered_marked by auto
      then show "i \<notin> set fired1 \<and> i < length (scheduled_events st)
                   \<and> \<not> get_triggered (scheduled_events st ! i)"
        using lt nt eq by simp
    qed
    have "distinct (fired1 @ concat fireds2)"
      using m ih(1) later by auto
    then show ?thesis using fs f1 later by auto
  qed
qed

subsection \<open>Schedule idempotence\<close>

text \<open>Timed heat keeps \<^verbatim>\<open>heat_on\<close> set in every run.\<close>

lemma timed_implies_heat_process_room:
  "timed_implies_heat st \<Longrightarrow> timed_implies_heat (fst (process_room parse inp cur rn st))"
proof (rule process_room_pres[where P = timed_implies_heat])
  fix e s s'
  assume "timed_implies_heat s" and "execute_scheduled_event e s = Inr s'"
  then show "timed_implies_heat s'"
    by (auto simp: timed_implies_heat_def execute_scheduled_event_def Let_def
        split: option.splits if_splits)
next
  fix i s
  assume "timed_implies_heat s"
  then show "timed_implies_heat (mark_triggered i s)"
    by (simp add: timed_implies_heat_def mark_triggered_def)
next
  fix s
  assume "timed_implies_heat s"
  then show "timed_implies_heat (process_timers s)"
    by (auto simp: timed_implies_heat_def process_timers_def timed_heat_step_def
        ac_boost_step_def Let_def)
next
  fix cur tn hn rn s
  assume a: "timed_implies_heat s"
  obtain t h where "climate_update cur tn hn rn s
           = s\<lparr> temp := max 5.0 (min 35.0 t), humidity := max 10.0 (min 90.0 h) \<rparr>"
    using climate_update_shape by blast
  then show "timed_implies_heat (climate_update cur tn hn rn s)"
    using a by (simp add: timed_implies_heat_def)
next
  fix cur rn s
  assume "timed_implies_heat s"
  then show "timed_implies_heat (history_update cur rn s)"
    by (simp add: timed_implies_heat_def history_update_def Let_def)
qed

lemma timed_implies_heat_handlers:
  "timed_implies_heat st \<Longrightarrow> timed_implies_heat (toggle_heat_on_state st)"
  "timed_implies_heat st \<Longrightarrow> timed_implies_heat (toggle_heat_off_state st)"
  "timed_implies_heat st \<Longrightarrow> timed_implies_heat (activate_ac_boost_state st)"
  "timed_implies_heat st \<Longrightarrow> timed_implies_heat (toggle_timed_heat_state answer st)"
  by (auto simp: timed_implies_heat_def toggle_heat_on_state_def toggle_heat_off_state_def
      activate_ac_boost_state_def toggle_timed_heat_state_def split: option.splits)

lemma timed_implies_heat_run:
  "all_rooms timed_implies_heat sys
   \<Longrightarrow> all_rooms timed_implies_heat (fst (run parse steps (sys, crash)))"
proof -
  assume a: "all_rooms timed_implies_heat sys"
  show ?thesis
  proof (rule run_pres[where P = timed_implies_heat])
    show "all_rooms timed_implies_heat (fst (sys, crash))" using a by simp
  qed (erule timed_implies_heat_process_room timed_implies_heat_handlers)+
qed

lemma execute_conflict:
  assumes "action e \<noteq> None" and "timed_implies_heat st"
    and "heat_on st \<or> ac_boost_on st \<or> timed_heat_active st"
  shows "execute_scheduled_event e st = Inr st"
  using assms
  by (auto simp: execute_scheduled_event_def timed_implies_heat_def Let_def)

text \<open>
  Claim C5. In a tick, every event handed to \<^verbatim>\<open>execute_scheduled_event\<close> was due and is marked
  triggered afterwards, and a tick whose event loop completes has executed every due event.
  A triggered event is never due again, whatever the time. Over any number of ticks of a
  room no event is executed twice, and only events that were untriggered at the start are
  executed. An event with an action that falls due while a mode is active (in a state where
  timed heat has \<^verbatim>\<open>heat_on\<close> set, as every handler and the tick keep it) leaves the room state
  unchanged; by the first part it is marked triggered all the same.
\<close>

theorem schedule_idempotence:
  "(process_room parse inp cur rn st = (st', fired, err)
      \<longrightarrow> (\<forall>i\<in>set fired. i < length (scheduled_events st)
              \<and> is_due parse (now_time inp) (scheduled_events st ! i)
              \<and> scheduled_events st' ! i = (scheduled_events st ! i)\<lparr> triggered := Some True \<rparr>)
        \<and> (err = None \<longrightarrow> (\<forall>i<length (scheduled_events st).
                               is_due parse (now_time inp) (scheduled_events st ! i)
                               \<longrightarrow> i \<in> set fired)))
   \<and> (get_triggered e \<longrightarrow> event_due parse now e = Inr False)
   \<and> (room_ticks parse cur rn inps st = (st2, fireds, err2)
      \<longrightarrow> distinct (concat fireds)
        \<and> (\<forall>i\<in>set (concat fireds). i < length (scheduled_events st)
                                     \<and> \<not> get_triggered (scheduled_events st ! i)))
   \<and> (action e \<noteq> None \<and> timed_implies_heat st
        \<and> (heat_on st \<or> ac_boost_on st \<or> timed_heat_active st)
      \<longrightarrow> execute_scheduled_event e st = Inr st)"
proof (intro conjI impI)
  assume p: "process_room parse inp cur rn st = (st', fired, err)"
  note m = process_room_marks[OF p]
  show "\<forall>i\<in>set fired. i < length (scheduled_events st)
              \<and> is_due parse (now_time inp) (scheduled_events st ! i)
              \<and> scheduled_events st' ! i = (scheduled_events st ! i)\<lparr> triggered := Some True \<rparr>"
    using m by auto
  assume "err = None"
  then show "\<forall>i<length (scheduled_events st).
               is_due parse (now_time inp) (scheduled_events st ! i) \<longrightarrow> i \<in> set fired"
    using m by blast
next
  assume "get_triggered e"
  then show "event_due parse now e = Inr False" by (rule triggered_not_due)
next
  assume r: "room_ticks parse cur rn inps st = (st2, fireds, err2)"
  show "distinct (concat fireds)" using room_ticks_fired[OF r] by blast
  show "\<forall>i\<in>set (concat fireds). i < length (scheduled_events st)
                                     \<and> \<not> get_triggered (scheduled_events st ! i)"
    using room_ticks_fired[OF r] by blast
next
  assume "action e \<noteq> None \<and> timed_implies_heat st
        \<and> (heat_on st \<or> ac_boost_on st \<or> timed_heat_active st)"
  then show "execute_scheduled_event e st = Inr st" using execute_conflict by blast
qed

lemma kitchen_tick:
  "process_room fromisoformat (quiet_tick noon) (Some ''Kitchen'') ''Kitchen'' kitchen_state
     = (fst (process_room fromisoformat (quiet_tick noon) (Some ''Kitchen'') ''Kitchen''
               kitchen_state), [0], None)"
  by (simp add: prod_eq_iff kitchen_state_def get_default_room_state_def tick_defs event_defs
      quiet_tick_def noon_def fromisoformat_defs)

lemma kitchen_tick_flags:
  "mode_flags (fst (process_room fromisoformat (quiet_tick noon) (Some ''Kitchen'') ''Kitchen''
               kitchen_state)) = (True, False, 0, True, 41)"
  by (simp add: kitchen_state_def get_default_room_state_def tick_defs event_defs
      quiet_tick_def noon_def fromisoformat_defs mode_flags_def)


lemma kitchen_ticks:
  "room_ticks fromisoformat (Some ''Kitchen'') ''Kitchen''
     [quiet_tick noon] kitchen_state
     = (fst (room_ticks fromisoformat (Some ''Kitchen'') ''Kitchen''
               [quiet_tick noon] kitchen_state), [[0]], None)"
  by (simp add: prod_eq_iff kitchen_state_def get_default_room_state_def tick_defs event_defs
      quiet_tick_def noon_def fromisoformat_defs)

theorem schedule_idempotence_witness:
  "snd (process_room fromisoformat (quiet_tick noon) (Some ''Kitchen'') ''Kitchen'' kitchen_state)
     = ([0], None)
   \<and> is_due fromisoformat noon (timed_heat_event ''2024-01-01T12:00:00'' 5)
   \<and> scheduled_events
         (fst (process_room fromisoformat (quiet_tick noon) (Some ''Kitchen'') ''Kitchen''
                 kitchen_state)) ! 0
       = (timed_heat_event ''2024-01-01T12:00:00'' 5)\<lparr> triggered := Some True \<rparr>
   \<and> mode_flags
         (fst (process_room fromisoformat (quiet_tick noon) (Some ''Kitchen'') ''Kitchen''
                 kitchen_state))
       = (True, False, 0, True, 41)
   \<and> get_triggered ((timed_heat_event ''2024-01-01T12:00:00'' 5)\<lparr> triggered := Some True \<rparr>)
   \<and> event_due fromisoformat (noon + 1)
         ((timed_heat_event ''2024-01-01T12:00:00'' 5)\<lparr> triggered := Some True \<rparr>)
       = Inr False
   \<and> snd (room_ticks fromisoformat (Some ''Kitchen'') ''Kitchen''
             [quiet_tick noon] kitchen_state)
       = ([[0]], None)
   \<and> distinct (concat [[0::nat]])
   \<and> action (timed_heat_event ''2024-01-01T12:00:00'' 5) \<noteq> None
   \<and> timed_implies_heat kitchen_state
   \<and> heat_on kitchen_state
   \<and> execute_scheduled_event (timed_heat_event ''2024-01-01T12:00:00'' 5) kitchen_state
       = Inr kitchen_state"
proof -
  let ?e = "timed_heat_event ''2024-01-01T12:00:00'' 5"
  let ?e' = "?e\<lparr> triggered := Some True \<rparr>"
  let ?p = "process_room fromisoformat (quiet_tick noon) (Some ''Kitchen'') ''Kitchen''
              kitchen_state"
  let ?r = "room_ticks fromisoformat (Some ''Kitchen'') ''Kitchen''
              [quiet_tick noon] kitchen_state"
  have ev: "scheduled_events kitchen_state = [?e]" by (simp add: kitchen_state_def)
  have nt: "now_time (quiet_tick noon) = noon" by (simp add: quiet_tick_def)
  have g: "get_triggered ?e'" by (rule get_triggered_marked)
  have a: "action ?e \<noteq> None" by (simp add: timed_heat_event_def)
  have t: "timed_implies_heat kitchen_state" and h: "heat_on kitchen_state"
    by (simp_all add: timed_implies_heat_def kitchen_state_def)
  note inst = schedule_idempotence[where parse = fromisoformat and inp = "quiet_tick noon"
      and cur = "Some ''Kitchen''" and rn = "''Kitchen''" and st = kitchen_state
      and st' = "fst ?p" and fired = "[0]" and err = None and e = ?e and inps = "[quiet_tick noon]"
      and ?st2.0 = "fst ?r" and fireds = "[[0]]" and ?err2.0 = None]
  have c1: "is_due fromisoformat noon ?e" and c2: "scheduled_events (fst ?p) ! 0 = ?e'"
    using inst kitchen_tick ev nt by simp_all
  have c3: "distinct (concat [[0::nat]])"
    using inst kitchen_ticks by blast
  have c4: "execute_scheduled_event ?e kitchen_state = Inr kitchen_state"
    using inst a t h by blast
  have c5: "event_due fromisoformat (noon + 1) ?e' = Inr False"
    using schedule_idempotence[where e = ?e' and parse = fromisoformat and now = "noon + 1"] g
    by blast
  have s1: "snd ?p = ([0], None)" using kitchen_tick by (metis snd_conv)
  have s2: "snd ?r = ([[0]], None)" using kitchen_ticks by (metis snd_conv)
  show ?thesis using c1 c2 c3 c4 c5 s1 s2 g a t h kitchen_tick_flags by blast
qed

subsection \<open>Order of execution\<close>

lemma execute_events_update:
  "execute_scheduled_event e (st\<lparr> scheduled_events := es \<rparr>)
     = (case execute_scheduled_event e st of
          Inl err \<Rightarrow> Inl err
        | Inr st1 \<Rightarrow> Inr (st1\<lparr> scheduled_events := es \<rparr>))"
  by (simp add: execute_scheduled_event_def Let_def split: option.splits)

lemma apply_in_order_events:
  "apply_in_order es (st\<lparr> scheduled_events := Y \<rparr>)
     = (apply_in_order es st)\<lparr> scheduled_events := Y \<rparr>"
proof (induction es arbitrary: st)
  case Nil
  then show ?case by (simp add: apply_in_order_def)
next
  case (Cons e es)
  show ?case
  proof (cases "execute_scheduled_event e st")
    case (Inl err)
    then show ?thesis using Cons[of st]
      by (simp add: apply_in_order_def execute_events_update)
  next
    case (Inr st1)
    then show ?thesis using Cons[of st1]
      by (simp add: apply_in_order_def execute_events_update)
  qed
qed

lemma apply_in_order_Cons:
  "execute_scheduled_event e st = Inr st1
   \<Longrightarrow> apply_in_order (e # es) st = apply_in_order es st1"
  by (simp add: apply_in_order_def)

lemma event_ok_due: "event_ok parse e \<Longrightarrow> event_due parse now e = Inr (is_due parse now e)"
  by (auto simp: event_ok_def parses_naive_def event_due_def is_due_def
      split: option.splits stamp.splits)

lemma event_ok_execute:
  "event_ok parse e \<Longrightarrow> is_due parse now e \<Longrightarrow> \<exists>st1. execute_scheduled_event e st = Inr st1"
  using is_due_untriggered[of parse now e]
  by (auto simp: event_ok_def execute_scheduled_event_def Let_def)

lemma mark_triggered_as_update:
  "mark_triggered i st
     = st\<lparr> scheduled_events :=
            (scheduled_events st)[i := (scheduled_events st ! i)\<lparr> triggered := Some True \<rparr>] \<rparr>"
  by (simp add: mark_triggered_def)

lemma drop_update_same: "n < length xs \<Longrightarrow> drop n (xs[n := x]) = x # drop (Suc n) xs"
  using Cons_nth_drop_Suc[of n "xs[n := x]"] by simp

text \<open>The event loop on well-formed events, for the indices below \<open>n\<close>.\<close>

lemma events_loop_ok:
  assumes "n \<le> length (scheduled_events st)"
    and "\<forall>i<n. event_ok parse (scheduled_events st ! i)"
  shows "events_loop parse now n st
     = ((apply_in_order (rev (filter (is_due parse now) (take n (scheduled_events st)))) st)
          \<lparr> scheduled_events :=
              mark_due parse now (take n (scheduled_events st)) @ drop n (scheduled_events st) \<rparr>,
        rev (filter (\<lambda>i. is_due parse now (scheduled_events st ! i)) [0..<n]),
        None)"
  using assms
proof (induction n arbitrary: st)
  case 0
  then show ?case by (simp add: apply_in_order_def mark_due_def)
next
  case (Suc n)
  let ?evs = "scheduled_events st"
  let ?e = "?evs ! n"
  have n: "n < length ?evs" using Suc.prems(1) by simp
  have ok: "event_ok parse ?e" using Suc.prems(2) by simp
  have tk: "take (Suc n) ?evs = take n ?evs @ [?e]" using n by (simp add: take_Suc_conv_app_nth)
  have dr: "drop n ?evs = ?e # drop (Suc n) ?evs" using n by (simp add: Cons_nth_drop_Suc)
  have due: "event_due parse now ?e = Inr (is_due parse now ?e)" using ok by (rule event_ok_due)
  show ?case
  proof (cases "is_due parse now ?e")
    case False
    have "events_loop parse now (Suc n) st = events_loop parse now n st"
      using due False by simp
    also have "\<dots> = ((apply_in_order (rev (filter (is_due parse now) (take n ?evs))) st)
          \<lparr> scheduled_events := mark_due parse now (take n ?evs) @ drop n ?evs \<rparr>,
        rev (filter (\<lambda>i. is_due parse now (?evs ! i)) [0..<n]), None)"
      using Suc.IH[of st] Suc.prems n by simp
    finally show ?thesis using False tk dr by (simp add: mark_due_def)
  next
    case True
    obtain st1 where ex: "execute_scheduled_event ?e st = Inr st1"
      using event_ok_execute[OF ok True] by blast
    have ev1: "scheduled_events st1 = ?evs" using ex by (rule execute_frame(3))
    let ?e' = "?e\<lparr> triggered := Some True \<rparr>"
    let ?st2 = "mark_triggered n st1"
    have st2: "?st2 = st1\<lparr> scheduled_events := ?evs[n := ?e'] \<rparr>"
      by (simp add: mark_triggered_as_update ev1)
    have ev2: "scheduled_events ?st2 = ?evs[n := ?e']" by (simp add: st2)
    have tk2: "take n (?evs[n := ?e']) = take n ?evs" by simp
    have dr2: "drop n (?evs[n := ?e']) = ?e' # drop (Suc n) ?evs"
      using n by (rule drop_update_same)
    have ok2: "\<forall>i<n. event_ok parse (scheduled_events ?st2 ! i)"
      using Suc.prems(2) by (simp add: ev2)
    have fl: "filter (\<lambda>i. is_due parse now (?evs[n := ?e'] ! i)) [0..<n]
            = filter (\<lambda>i. is_due parse now (?evs ! i)) [0..<n]"
      by (rule filter_cong) simp_all
    have ih: "events_loop parse now n ?st2
       = ((apply_in_order (rev (filter (is_due parse now) (take n ?evs))) ?st2)
            \<lparr> scheduled_events := mark_due parse now (take n ?evs) @ ?e' # drop (Suc n) ?evs \<rparr>,
          rev (filter (\<lambda>i. is_due parse now (?evs ! i)) [0..<n]), None)"
      using Suc.IH[of ?st2] ok2 n by (simp add: ev2 tk2 dr2 fl del: drop_update_swap)
    have ap: "(apply_in_order (rev (filter (is_due parse now) (take n ?evs))) ?st2)
               \<lparr> scheduled_events := mark_due parse now (take n ?evs) @ ?e' # drop (Suc n) ?evs \<rparr>
            = (apply_in_order (rev (filter (is_due parse now) (take (Suc n) ?evs))) st)
               \<lparr> scheduled_events :=
                   mark_due parse now (take (Suc n) ?evs) @ drop (Suc n) ?evs \<rparr>"
      using True
      by (simp add: st2 apply_in_order_events tk apply_in_order_Cons[OF ex] mark_due_def)
    have "events_loop parse now (Suc n) st
            = (fst (events_loop parse now n ?st2), n # fst (snd (events_loop parse now n ?st2)),
               snd (snd (events_loop parse now n ?st2)))"
      using due True ex by (simp add: split_beta)
    then show ?thesis using ih ap True by simp
  qed
qed


text \<open>
  Claim C3, amended. For a room whose events are all well-formed, the event loop of a tick
  executes the due events in reverse insertion order, the last inserted first: the calls
  are made for the due indices in descending order, the room state is the one that applying
  the due events one after the other in reversed list order gives, every due event is
  marked triggered, and the list keeps its order.
\<close>

theorem due_events_reverse_order:
  assumes "room_ok parse st"
  shows "events_loop parse now (length (scheduled_events st)) st
     = ((apply_in_order (rev (filter (is_due parse now) (scheduled_events st))) st)
          \<lparr> scheduled_events := mark_due parse now (scheduled_events st) \<rparr>,
        rev (due_indices parse now (scheduled_events st)),
        None)"
proof -
  have "\<forall>i<length (scheduled_events st). event_ok parse (scheduled_events st ! i)"
    using assms by (simp add: room_ok_def list_all_length)
  then show ?thesis
    using events_loop_ok[of "length (scheduled_events st)" st parse now]
    by (simp add: due_indices_def)
qed

lemma two_event_due:
  "is_due fromisoformat noon (timed_heat_event ''2024-01-01T11:00:00'' 5)"
  "is_due fromisoformat noon (timed_heat_event ''2024-01-01T11:30:00'' 10)"
  by (simp_all add: is_due_def event_defs noon_def fromisoformat_defs)

theorem due_events_reverse_order_witness:
  "room_ok fromisoformat two_event_state
   \<and> rev (due_indices fromisoformat noon (scheduled_events two_event_state)) = [1, 0]
   \<and> events_loop fromisoformat noon (length (scheduled_events two_event_state)) two_event_state
       = ((apply_in_order [timed_heat_event ''2024-01-01T11:30:00'' 10,
                           timed_heat_event ''2024-01-01T11:00:00'' 5] two_event_state)
            \<lparr> scheduled_events :=
                [(timed_heat_event ''2024-01-01T11:00:00'' 5)\<lparr> triggered := Some True \<rparr>,
                 (timed_heat_event ''2024-01-01T11:30:00'' 10)\<lparr> triggered := Some True \<rparr>] \<rparr>,
          [1, 0], None)"
proof -
  have ok: "room_ok fromisoformat two_event_state"
    by (simp add: room_ok_def event_ok_def two_event_state_def event_defs fromisoformat_defs)
  have ev: "scheduled_events two_event_state
              = [timed_heat_event ''2024-01-01T11:00:00'' 5,
                 timed_heat_event ''2024-01-01T11:30:00'' 10]"
    by (simp add: two_event_state_def)
  have up: "[0..<2] = [0, 1]" by (simp add: upt_rec)
  show ?thesis
    using due_events_reverse_order[OF ok, of noon] ok
    by (simp add: ev due_indices_def mark_due_def two_event_due up)
qed

text \<open>
  Claim C3 as stated fails: with a 5 minute event inserted before a 10 minute event and both
  due, the loop executes index 1 before index 0 and timed heat starts with 600 seconds; in
  insertion order it would start with 300.
\<close>

theorem due_events_not_in_insertion_order:
  "due_indices fromisoformat noon (scheduled_events two_event_state) = [0, 1]
   \<and> fst (snd (events_loop fromisoformat noon (length (scheduled_events two_event_state))
                  two_event_state)) = [1, 0]
   \<and> mode_flags (fst (events_loop fromisoformat noon (length (scheduled_events two_event_state))
                         two_event_state))
       = (True, False, 0, True, 600)
   \<and> mode_flags (apply_in_order (filter (is_due fromisoformat noon)
                                      (scheduled_events two_event_state)) two_event_state)
       = (True, False, 0, True, 300)"
proof -
  have ev: "scheduled_events two_event_state
              = [timed_heat_event ''2024-01-01T11:00:00'' 5,
                 timed_heat_event ''2024-01-01T11:30:00'' 10]"
    by (simp add: two_event_state_def)
  have up: "[0..<2] = [0, 1]" by (simp add: upt_rec)
  have a: "due_indices fromisoformat noon (scheduled_events two_event_state) = [0, 1]"
    by (simp add: ev due_indices_def two_event_due up)
  have b: "events_loop fromisoformat noon (length (scheduled_events two_event_state))
             two_event_state
           = (fst (events_loop fromisoformat noon (length (scheduled_events two_event_state))
                     two_event_state), [1, 0], None)"
    by (simp add: prod_eq_iff two_event_state_def get_default_room_state_def event_defs
        noon_def fromisoformat_defs)
  have c: "mode_flags (fst (events_loop fromisoformat noon
                              (length (scheduled_events two_event_state)) two_event_state))
       = (True, False, 0, True, 600)"
    by (simp add: two_event_state_def get_default_room_state_def event_defs
        noon_def fromisoformat_defs mode_flags_def)
  have d: "mode_flags (apply_in_order (filter (is_due fromisoformat noon)
                                      (scheduled_events two_event_state)) two_event_state)
       = (True, False, 0, True, 300)"
    by (simp add: ev two_event_due apply_in_order_def)
       (simp add: two_event_state_def get_default_room_state_def event_defs mode_flags_def)
  show ?thesis using a b c d by (metis fst_conv snd_conv)
qed

subsection \<open>Exceptions in the tick\<close>

lemma process_room_ok:
  assumes "room_ok parse st"
  shows "snd (snd (process_room parse inp cur rn st)) = None"
proof -
  have "\<forall>i<length (scheduled_events st). event_ok parse (scheduled_events st ! i)"
    using assms by (simp add: room_ok_def list_all_length)
  then have "snd (snd (events_loop parse (now_time inp) (length (scheduled_events st)) st)) = None"
    using events_loop_ok[of "length (scheduled_events st)" st parse "now_time inp"] by simp
  then show ?thesis
    by (cases "events_loop parse (now_time inp) (length (scheduled_events st)) st")
       (simp add: process_room_def)
qed

lemma events_loop_malformed:
  assumes "i < n" and "n \<le> length (scheduled_events st)"
    and "event_malformed parse (scheduled_events st ! i)"
  shows "\<exists>err. snd (snd (events_loop parse now n st)) = Some err"
  using assms
proof (induction n arbitrary: st)
  case 0
  then show ?case by simp
next
  case (Suc n)
  let ?evs = "scheduled_events st"
  let ?e = "?evs ! n"
  have n: "n < length ?evs" using Suc.prems(2) by simp
  show ?case
  proof (cases "event_due parse now ?e")
    case (Inl e1)
    then show ?thesis by simp
  next
    case (Inr b)
    then have "i \<noteq> n" using Suc.prems(3)
      by (auto simp: event_malformed_def parses_naive_def event_due_def
          split: option.splits stamp.splits)
    then have i: "i < n" using Suc.prems(1) by simp
    show ?thesis
    proof (cases b)
      case False
      then show ?thesis using Inr Suc.IH[OF i _ Suc.prems(3)] n by simp
    next
      case True
      show ?thesis
      proof (cases "execute_scheduled_event ?e st")
        case (Inl e1)
        then show ?thesis using \<open>event_due parse now ?e = Inr b\<close> True by simp
      next
        case (Inr st1)
        have ev1: "scheduled_events st1 = ?evs" using Inr by (rule execute_frame(3))
        let ?st2 = "mark_triggered n st1"
        have ev2: "scheduled_events ?st2 = ?evs[n := ?e\<lparr> triggered := Some True \<rparr>]"
          by (simp add: events_mark_triggered ev1)
        have "event_malformed parse (scheduled_events ?st2 ! i)"
          using Suc.prems(3) \<open>i \<noteq> n\<close> by (simp add: ev2)
        moreover have "n \<le> length (scheduled_events ?st2)" using n by (simp add: ev2)
        ultimately obtain err where "snd (snd (events_loop parse now n ?st2)) = Some err"
          using Suc.IH[OF i] by blast
        then show ?thesis using \<open>event_due parse now ?e = Inr b\<close> True Inr
          by (cases "events_loop parse now n ?st2") simp
      qed
    qed
  qed
qed

lemma process_room_malformed:
  assumes "i < length (scheduled_events st)"
    and "event_malformed parse (scheduled_events st ! i)"
  shows "\<exists>err. snd (snd (process_room parse inp cur rn st)) = Some err"
proof -
  obtain err where
    "snd (snd (events_loop parse (now_time inp) (length (scheduled_events st)) st)) = Some err"
    using events_loop_malformed[OF assms(1) _ assms(2)] by blast
  then show ?thesis
    by (cases "events_loop parse (now_time inp) (length (scheduled_events st)) st")
       (simp add: process_room_def)
qed

lemma rooms_loop_all:
  "list_all (\<lambda>(rn, st). snd (snd (process_room parse inp cur rn st)) = None) rs
   \<Longrightarrow> rooms_loop parse inp cur rs
       = (map (\<lambda>(rn, st). (rn, fst (process_room parse inp cur rn st))) rs, None)"
proof (induction rs)
  case Nil
  then show ?case by simp
next
  case (Cons a rs)
  obtain rn st where a: "a = (rn, st)" by (cases a)
  obtain st1 fired err where p: "process_room parse inp cur rn st = (st1, fired, err)"
    by (cases "process_room parse inp cur rn st")
  have "err = None" using Cons.prems a p by simp
  then show ?case using Cons a p by simp
qed

lemma rooms_loop_raise:
  assumes "list_all (\<lambda>(rn, st). snd (snd (process_room parse inp cur rn st)) = None) earlier"
    and "snd (snd (process_room parse inp cur rn st)) = Some err"
  shows "rooms_loop parse inp cur (earlier @ (rn, st) # later)
       = (map (\<lambda>(rn, st). (rn, fst (process_room parse inp cur rn st))) earlier
            @ (rn, fst (process_room parse inp cur rn st)) # later, Some err)"
  using assms(1)
proof (induction earlier)
  case Nil
  obtain st1 fired err1 where p: "process_room parse inp cur rn st = (st1, fired, err1)"
    by (cases "process_room parse inp cur rn st")
  then show ?case using assms(2) by simp
next
  case (Cons a earlier)
  obtain rn1 st1 where a: "a = (rn1, st1)" by (cases a)
  obtain st2 fired err1 where p: "process_room parse inp cur rn1 st1 = (st2, fired, err1)"
    by (cases "process_room parse inp cur rn1 st1")
  have "err1 = None" using Cons.prems a p by simp
  then show ?case using Cons a p by simp
qed

lemma rooms_loop_some_raise:
  assumes "(rn, st) \<in> set rs" and "snd (snd (process_room parse inp cur rn st)) = Some e"
  shows "\<exists>err. snd (rooms_loop parse inp cur rs) = Some err"
  using assms(1)
proof (induction rs)
  case Nil
  then show ?case by simp
next
  case (Cons a rs)
  obtain rn1 st1 where a: "a = (rn1, st1)" by (cases a)
  obtain st2 fired err1 where p: "process_room parse inp cur rn1 st1 = (st2, fired, err1)"
    by (cases "process_room parse inp cur rn1 st1")
  show ?case
  proof (cases err1)
    case (Some e1)
    then show ?thesis using a p by simp
  next
    case None
    then have "(rn, st) \<noteq> (rn1, st1)" using p assms(2) by auto
    then have "(rn, st) \<in> set rs" using Cons.prems a by auto
    then obtain err where "snd (rooms_loop parse inp cur rs) = Some err"
      using Cons.IH by blast
    then show ?thesis using a p None
      by (cases "rooms_loop parse inp cur rs") simp
  qed
qed

text \<open>
  Claim C2, amended. A failure while processing one room is not caught inside the tick loop.
  A room with an untriggered event whose start time is missing, does not parse or is
  offset-aware raises while it is processed, and a tick over a system with such a room ends
  with an exception. The exception of the first room that raises leaves the tick: the rooms
  before it in iteration order keep their updates, the failing room keeps what was changed
  before the exception, and the rooms after it are not processed.
\<close>

theorem tick_exception_propagates:
  "(i < length (scheduled_events st) \<and> event_malformed parse (scheduled_events st ! i)
        \<longrightarrow> (\<exists>err. snd (snd (process_room parse inp cur rn st)) = Some err))
   \<and> ((rn, st) \<in> set (room_states sys)
        \<and> i < length (scheduled_events st) \<and> event_malformed parse (scheduled_events st ! i)
        \<longrightarrow> (\<exists>err. snd (simulation_tick parse inp sys) = Some err))
   \<and> (room_states sys = earlier @ (rn, st) # later
        \<and> list_all (\<lambda>(rn, st). snd (snd (process_room parse inp (current_room sys) rn st)) = None)
             earlier
        \<and> snd (snd (process_room parse inp (current_room sys) rn st)) = Some err
        \<longrightarrow> simulation_tick parse inp sys
            = (sys\<lparr> room_states :=
                     map (\<lambda>(rn, st). (rn, fst (process_room parse inp (current_room sys) rn st)))
                       earlier
                     @ (rn, fst (process_room parse inp (current_room sys) rn st)) # later \<rparr>,
               Some err))"
proof (intro conjI impI)
  assume "i < length (scheduled_events st) \<and> event_malformed parse (scheduled_events st ! i)"
  then show "\<exists>err. snd (snd (process_room parse inp cur rn st)) = Some err"
    using process_room_malformed by blast
next
  assume a: "(rn, st) \<in> set (room_states sys)
        \<and> i < length (scheduled_events st) \<and> event_malformed parse (scheduled_events st ! i)"
  then obtain e where "snd (snd (process_room parse inp (current_room sys) rn st)) = Some e"
    using process_room_malformed by blast
  then obtain err where
    "snd (rooms_loop parse inp (current_room sys) (room_states sys)) = Some err"
    using rooms_loop_some_raise a by blast
  then show "\<exists>err. snd (simulation_tick parse inp sys) = Some err"
    by (cases "rooms_loop parse inp (current_room sys) (room_states sys)")
       (simp add: simulation_tick_def)
next
  assume "room_states sys = earlier @ (rn, st) # later
        \<and> list_all (\<lambda>(rn, st). snd (snd (process_room parse inp (current_room sys) rn st)) = None)
             earlier
        \<and> snd (snd (process_room parse inp (current_room sys) rn st)) = Some err"
  then show "simulation_tick parse inp sys
            = (sys\<lparr> room_states :=
                     map (\<lambda>(rn, st). (rn, fst (process_room parse inp (current_room sys) rn st)))
                       earlier
                     @ (rn, fst (process_room parse inp (current_room sys) rn st)) # later \<rparr>,
               Some err)"
    by (simp add: simulation_tick_def rooms_loop_raise)
qed

lemma init_malformed:
  "init_system malformed_config =
     \<lparr> rooms = [''Living Room'', ''Bedroom''],
       current_room = Some ''Living Room'',
       room_states =
         [(''Living Room'',
           get_default_room_state\<lparr> scheduled_events := [timed_heat_event ''tomorrow'' 5] \<rparr>),
          (''Bedroom'', get_default_room_state)] \<rparr>"
  by (simp add: init_system_def malformed_config_def load_rooms_def load_room_states_def
      load_room_state_def malformed_doc_def merged_def load_deque_def load_events_def
      get_default_room_state_def)

lemma tomorrow_unparsable: "fromisoformat ''tomorrow'' = None"
  by (simp add: fromisoformat_def)

text \<open>
  Claim C2 as stated fails: with an event in ``Living Room'' whose start time is the string
  \<^verbatim>\<open>tomorrow\<close>, the tick ends with the \<^verbatim>\<open>ValueError\<close> and ``Bedroom'', which comes later and
  would have been processed without an exception, is left untouched.
\<close>

theorem malformed_event_aborts_tick:
  "snd (simulation_tick fromisoformat (quiet_tick noon) (init_system malformed_config))
     = Some (ValueError ''tomorrow'')
   \<and> room_of (init_system malformed_config) ''Bedroom'' = Some get_default_room_state
   \<and> room_of (fst (simulation_tick fromisoformat (quiet_tick noon)
                      (init_system malformed_config))) ''Bedroom''
       = Some get_default_room_state
   \<and> process_room fromisoformat (quiet_tick noon) (Some ''Living Room'') ''Bedroom''
         get_default_room_state
       = (get_default_room_state\<lparr> temp := 20.006, humidity := 49.97 \<rparr>, [], None)"
proof -
  have a: "simulation_tick fromisoformat (quiet_tick noon) (init_system malformed_config)
             = (init_system malformed_config, Some (ValueError ''tomorrow''))"
    by (simp add: init_malformed simulation_tick_def process_room_def event_defs
        tomorrow_unparsable quiet_tick_def)
  have b: "room_of (init_system malformed_config) ''Bedroom'' = Some get_default_room_state"
    by (simp add: init_malformed room_of_def)
  have c: "process_room fromisoformat (quiet_tick noon) (Some ''Living Room'') ''Bedroom''
             get_default_room_state
           = (get_default_room_state\<lparr> temp := 20.006, humidity := 49.97 \<rparr>, [], None)"
    by (simp add: get_default_room_state_def tick_defs quiet_tick_def)
  show ?thesis using a b c by simp
qed

lemma init_malformed_middle:
  "init_system malformed_middle_config =
     \<lparr> rooms = [''Bedroom'', ''Living Room'', ''Kitchen''],
       current_room = Some ''Bedroom'',
       room_states =
         [(''Bedroom'', get_default_room_state),
          (''Living Room'',
           get_default_room_state\<lparr> scheduled_events := [timed_heat_event ''tomorrow'' 5] \<rparr>),
          (''Kitchen'', get_default_room_state)] \<rparr>"
  by (simp add: init_system_def malformed_middle_config_def load_rooms_def load_room_states_def
      load_room_state_def malformed_doc_def merged_def load_deque_def load_events_def
      get_default_room_state_def)

theorem tick_exception_propagates_witness:
  "event_malformed fromisoformat (timed_heat_event ''tomorrow'' 5)
   \<and> snd (snd (process_room fromisoformat (quiet_tick noon) (Some ''Bedroom'') ''Living Room''
                  (get_default_room_state
                     \<lparr> scheduled_events := [timed_heat_event ''tomorrow'' 5] \<rparr>)))
       = Some (ValueError ''tomorrow'')
   \<and> event_malformed fromisoformat (timed_heat_event ''2024-01-01T11:00:00+00:00'' 5)
   \<and> snd (snd (process_room fromisoformat (quiet_tick noon) (Some ''Bedroom'') ''Living Room''
                  (get_default_room_state
                     \<lparr> scheduled_events :=
                         [timed_heat_event ''2024-01-01T11:00:00+00:00'' 5] \<rparr>)))
       = Some (TypeError ''2024-01-01T11:00:00+00:00'')
   \<and> snd (snd (process_room fromisoformat (quiet_tick noon) (Some ''Bedroom'') ''Bedroom''
                  get_default_room_state)) = None
   \<and> simulation_tick fromisoformat (quiet_tick noon) (init_system malformed_middle_config)
       = ((init_system malformed_middle_config)
            \<lparr> room_states :=
                [(''Bedroom'',
                  fst (process_room fromisoformat (quiet_tick noon) (Some ''Bedroom'') ''Bedroom''
                         get_default_room_state)),
                 (''Living Room'',
                  get_default_room_state
                    \<lparr> scheduled_events := [timed_heat_event ''tomorrow'' 5] \<rparr>),
                 (''Kitchen'', get_default_room_state)] \<rparr>,
          Some (ValueError ''tomorrow''))
   \<and> map_option temp
         (room_of (fst (simulation_tick fromisoformat (quiet_tick noon)
                          (init_system malformed_middle_config))) ''Bedroom'')
       = Some 20.015
   \<and> map_option temp
         (room_of (fst (simulation_tick fromisoformat (quiet_tick noon)
                          (init_system malformed_middle_config))) ''Kitchen'')
       = Some 20.0"
proof -
  let ?bad = "get_default_room_state\<lparr> scheduled_events := [timed_heat_event ''tomorrow'' 5] \<rparr>"
  let ?aware = "get_default_room_state
                  \<lparr> scheduled_events := [timed_heat_event ''2024-01-01T11:00:00+00:00'' 5] \<rparr>"
  let ?cur = "Some ''Bedroom''"
  let ?sys = "init_system malformed_middle_config"
  have mal: "event_malformed fromisoformat (timed_heat_event ''tomorrow'' 5)"
    by (simp add: event_malformed_def event_defs tomorrow_unparsable)
  have mal2: "event_malformed fromisoformat (timed_heat_event ''2024-01-01T11:00:00+00:00'' 5)"
    by (simp add: event_malformed_def event_defs fromisoformat_defs)
  have raised: "snd (snd (process_room fromisoformat (quiet_tick noon) ?cur ''Living Room'' ?bad))
                  = Some (ValueError ''tomorrow'')"
    by (simp add: process_room_def event_defs tomorrow_unparsable quiet_tick_def)
  have raised2: "snd (snd (process_room fromisoformat (quiet_tick noon) ?cur ''Living Room''
                             ?aware))
                  = Some (TypeError ''2024-01-01T11:00:00+00:00'')"
    by (simp add: process_room_def event_defs fromisoformat_defs quiet_tick_def)
  have unchanged: "fst (process_room fromisoformat (quiet_tick noon) ?cur ''Living Room'' ?bad)
                  = ?bad"
    by (simp add: process_room_def event_defs tomorrow_unparsable quiet_tick_def)
  have first: "process_room fromisoformat (quiet_tick noon) ?cur ''Bedroom''
                 get_default_room_state
               = (get_default_room_state
                    \<lparr> temp := 20.015, humidity := 49.925, time_data := [1],
                      temp_data := [20.015], humidity_data := [49.925],
                      simulation_time_elapsed := 1 \<rparr>, [], None)"
    by (simp add: get_default_room_state_def tick_defs quiet_tick_def)
  have none: "snd (snd (process_room fromisoformat (quiet_tick noon) ?cur ''Bedroom''
                          get_default_room_state)) = None"
    by (simp add: first)
  have i0: "(0::nat) < length (scheduled_events ?bad)"
    and e0: "scheduled_events ?bad ! 0 = timed_heat_event ''tomorrow'' 5"
    by simp_all
  have ex: "\<exists>err. snd (snd (process_room fromisoformat (quiet_tick noon) ?cur ''Living Room''
                                ?bad)) = Some err"
    using tick_exception_propagates[where parse = fromisoformat and st = ?bad and i = 0
        and inp = "quiet_tick noon" and cur = ?cur and rn = "''Living Room''"] mal i0 e0
    by simp
  have cut: "simulation_tick fromisoformat (quiet_tick noon) ?sys
       = (?sys\<lparr> room_states :=
                [(''Bedroom'',
                  fst (process_room fromisoformat (quiet_tick noon) ?cur ''Bedroom''
                         get_default_room_state)),
                 (''Living Room'', ?bad),
                 (''Kitchen'', get_default_room_state)] \<rparr>,
          Some (ValueError ''tomorrow''))"
    using tick_exception_propagates[where parse = fromisoformat
        and sys = ?sys and inp = "quiet_tick noon"
        and earlier = "[(''Bedroom'', get_default_room_state)]"
        and rn = "''Living Room''" and st = ?bad
        and later = "[(''Kitchen'', get_default_room_state)]"
        and err = "ValueError ''tomorrow''"] raised unchanged none
    by (simp add: init_malformed_middle)
  have t1: "map_option temp (room_of (fst (simulation_tick fromisoformat (quiet_tick noon) ?sys))
                               ''Bedroom'') = Some 20.015"
    by (simp add: cut room_of_def first)
  have t2: "map_option temp (room_of (fst (simulation_tick fromisoformat (quiet_tick noon) ?sys))
                               ''Kitchen'') = Some 20.0"
    by (simp add: cut room_of_def get_default_room_state_def sim_constants)
  show ?thesis using mal mal2 raised raised2 none cut t1 t2 by blast
qed

subsection \<open>Timed heat\<close>

lemma room_ok_process_room:
  assumes "room_ok parse st"
  shows "room_ok parse (fst (process_room parse inp cur rn st))"
proof -
  obtain st' fired err where p: "process_room parse inp cur rn st = (st', fired, err)"
    by (cases "process_room parse inp cur rn st")
  note m = process_room_marks[OF p]
  have ok: "\<forall>i<length (scheduled_events st). event_ok parse (scheduled_events st ! i)"
    using assms by (simp add: room_ok_def list_all_length)
  have "\<forall>i<length (scheduled_events st'). event_ok parse (scheduled_events st' ! i)"
  proof (intro allI impI)
    fix i assume "i < length (scheduled_events st')"
    then have i: "i < length (scheduled_events st)" using m by simp
    then have "scheduled_events st' ! i = (scheduled_events st ! i)\<lparr> triggered := Some True \<rparr>
             \<or> scheduled_events st' ! i = scheduled_events st ! i"
      using m by auto
    then show "event_ok parse (scheduled_events st' ! i)"
      using ok i by (auto simp: event_ok_def get_triggered_def)
  qed
  then show ?thesis using p by (simp add: room_ok_def list_all_length)
qed

lemma mode_flags_climate_update:
  "mode_flags (climate_update cur tn hn rn st) = mode_flags st"
proof -
  obtain t h where "climate_update cur tn hn rn st
           = st\<lparr> temp := max 5.0 (min 35.0 t), humidity := max 10.0 (min 90.0 h) \<rparr>"
    using climate_update_shape by blast
  then show ?thesis by (simp add: mode_flags_def)
qed

lemma mode_flags_history_update:
  "mode_flags (history_update cur rn st) = mode_flags st"
  by (simp add: history_update_def mode_flags_def Let_def)

lemma heating_events_loop:
  assumes "heat_on st"
  shows "mode_flags (fst (events_loop parse now n st)) = mode_flags st"
proof -
  have "(\<lambda>s. mode_flags s = mode_flags st) (fst (events_loop parse now n st))"
  proof (rule events_loop_pres[where P = "\<lambda>s. mode_flags s = mode_flags st"])
    show "mode_flags st = mode_flags st" by simp
  next
    fix e s s'
    assume a: "mode_flags s = mode_flags st" and b: "execute_scheduled_event e s = Inr s'"
    have "heat_on s" using a assms by (simp add: mode_flags_def)
    then have "s' = s" using b
      by (auto simp: execute_scheduled_event_def Let_def split: option.splits if_splits)
    then show "mode_flags s' = mode_flags st" using a by simp
  next
    fix i s
    assume "mode_flags s = mode_flags st"
    then show "mode_flags (mark_triggered i s) = mode_flags st"
      by (simp add: mode_flags_def mark_triggered_def)
  qed
  then show ?thesis by simp
qed

lemma heating_process_timers:
  assumes "mode_flags st = (True, False, a, True, r)"
  shows "mode_flags (process_timers st)
           = (if 1 < r then (True, False, a, True, r - 1) else (False, False, a, False, 0))"
  using assms
  by (auto simp: mode_flags_def process_timers_def timed_heat_step_def ac_boost_step_def
      Let_def SIMULATION_TICK_INTERVAL_SECONDS_def)

text \<open>One tick of a room in timed heat.\<close>

lemma timed_heat_tick:
  assumes "mode_flags st = (True, False, a, True, r)" and "room_ok parse st"
  shows "snd (snd (process_room parse inp cur rn st)) = None
       \<and> room_ok parse (fst (process_room parse inp cur rn st))
       \<and> mode_flags (fst (process_room parse inp cur rn st))
           = (if 1 < r then (True, False, a, True, r - 1) else (False, False, a, False, 0))"
proof -
  have e: "snd (snd (process_room parse inp cur rn st)) = None"
    using assms(2) by (rule process_room_ok)
  then have p: "process_room parse inp cur rn st
                  = (fst (process_room parse inp cur rn st),
                     fst (snd (process_room parse inp cur rn st)), None)"
    by (simp add: prod_eq_iff)
  have h: "heat_on st" using assms(1) by (simp add: mode_flags_def)
  have "mode_flags (before_climate parse inp st)
          = (if 1 < r then (True, False, a, True, r - 1) else (False, False, a, False, 0))"
    unfolding before_climate_def
    by (rule heating_process_timers) (simp add: heating_events_loop[OF h] assms(1))
  then have "mode_flags (fst (process_room parse inp cur rn st))
          = (if 1 < r then (True, False, a, True, r - 1) else (False, False, a, False, 0))"
    by (subst process_room_finished[OF p])
       (simp only: mode_flags_history_update mode_flags_climate_update)
  then show ?thesis using e room_ok_process_room[OF assms(2)] by simp
qed


lemma room_ticks_Cons:
  assumes "snd (snd (process_room parse inp cur rn st)) = None"
  shows "fst (room_ticks parse cur rn (inp # inps) st)
           = fst (room_ticks parse cur rn inps (fst (process_room parse inp cur rn st)))"
    and "snd (snd (room_ticks parse cur rn (inp # inps) st))
           = snd (snd (room_ticks parse cur rn inps (fst (process_room parse inp cur rn st))))"
  using assms
  by (cases "process_room parse inp cur rn st";
      cases "room_ticks parse cur rn inps (fst (process_room parse inp cur rn st))"; simp)+

text \<open>The countdown of timed heat over the ticks of a room.\<close>

lemma timed_heat_ticks:
  assumes "mode_flags st = (True, False, a, True, r)" and "room_ok parse st"
    and "1 \<le> r" and "int (length inps) \<le> r"
  shows "snd (snd (room_ticks parse cur rn inps st)) = None
       \<and> mode_flags (fst (room_ticks parse cur rn inps st))
           = (if int (length inps) < r then (True, False, a, True, r - int (length inps))
              else (False, False, a, False, 0))"
  using assms
proof (induction inps arbitrary: st r)
  case Nil
  then show ?case by simp
next
  case (Cons inp inps)
  let ?st1 = "fst (process_room parse inp cur rn st)"
  note t = timed_heat_tick[OF Cons.prems(1,2), of inp cur rn]
  have e: "snd (snd (process_room parse inp cur rn st)) = None" using t by simp
  have ok1: "room_ok parse ?st1" using t by simp
  have fs: "fst (room_ticks parse cur rn (inp # inps) st) = fst (room_ticks parse cur rn inps ?st1)"
    and sn: "snd (snd (room_ticks parse cur rn (inp # inps) st))
               = snd (snd (room_ticks parse cur rn inps ?st1))"
    by (rule room_ticks_Cons[OF e])+
  show ?case
  proof (cases "1 < r")
    case True
    then have f1: "mode_flags ?st1 = (True, False, a, True, r - 1)" using t by simp
    have "1 \<le> r - 1" and "int (length inps) \<le> r - 1" using True Cons.prems(4) by simp_all
    from Cons.IH[OF f1 ok1 this]
    have "snd (snd (room_ticks parse cur rn inps ?st1)) = None"
      and "mode_flags (fst (room_ticks parse cur rn inps ?st1))
             = (if int (length inps) < r - 1 then (True, False, a, True, r - 1 - int (length inps))
                else (False, False, a, False, 0))"
      by simp_all
    then show ?thesis unfolding fs sn by (auto split: if_splits)
  next
    case False
    then have r: "r = 1" using Cons.prems(3) by simp
    then have "inps = []" using Cons.prems(4) by simp
    moreover have "mode_flags ?st1 = (False, False, a, False, 0)" using t False by simp
    ultimately show ?thesis unfolding fs sn using r by simp
  qed
qed

text \<open>
  Claim C6. In a room with no active mode, starting timed heat for \<open>m\<close> minutes (the dialog
  returns \<open>m \<ge> 1\<close>) sets \<^verbatim>\<open>timed_heat_active\<close>, \<^verbatim>\<open>heat_on\<close> and \<open>m * 60\<close> remaining seconds.
  With well-formed events, the first \<open>m * 60\<close> ticks of the room all complete; after \<open>k\<close>
  of them the remaining seconds are \<open>m * 60 - k\<close>, and timed heat and \<^verbatim>\<open>heat_on\<close> are set
  exactly as long as \<open>k < m * 60\<close>: after \<open>m * 60\<close> ticks both are off and the remaining
  seconds are 0.
\<close>

theorem timed_heat_countdown:
  assumes "no_active_mode st" and "1 \<le> m" and "room_ok parse st"
    and "int (length inps) \<le> m * 60"
  shows "timed_heat_active (toggle_timed_heat_state (Some m) st)
       \<and> timed_heat_remaining_seconds (toggle_timed_heat_state (Some m) st) = m * 60
       \<and> heat_on (toggle_timed_heat_state (Some m) st)
       \<and> snd (snd (room_ticks parse cur rn inps (toggle_timed_heat_state (Some m) st))) = None
       \<and> timed_heat_remaining_seconds
           (fst (room_ticks parse cur rn inps (toggle_timed_heat_state (Some m) st)))
           = m * 60 - int (length inps)
       \<and> timed_heat_active
           (fst (room_ticks parse cur rn inps (toggle_timed_heat_state (Some m) st)))
           = (int (length inps) < m * 60)
       \<and> heat_on (fst (room_ticks parse cur rn inps (toggle_timed_heat_state (Some m) st)))
           = (int (length inps) < m * 60)"
proof -
  let ?st0 = "toggle_timed_heat_state (Some m) st"
  have st0: "?st0 = st\<lparr> timed_heat_active := True, timed_heat_remaining_seconds := m * 60,
                          heat_on := True \<rparr>"
    using assms(1) by (simp add: toggle_timed_heat_state_def no_active_mode_def)
  have f0: "mode_flags ?st0 = (True, False, ac_boost_timer st, True, m * 60)"
    using assms(1) by (simp add: st0 mode_flags_def no_active_mode_def)
  have ok0: "room_ok parse ?st0" using assms(3) by (simp add: st0 room_ok_def)
  have "1 \<le> m * 60" using assms(2) by simp
  from timed_heat_ticks[OF f0 ok0 this assms(4), of cur rn]
  have "snd (snd (room_ticks parse cur rn inps ?st0)) = None"
    and "mode_flags (fst (room_ticks parse cur rn inps ?st0))
           = (if int (length inps) < m * 60
              then (True, False, ac_boost_timer st, True, m * 60 - int (length inps))
              else (False, False, ac_boost_timer st, False, 0))"
    by simp_all
  then show ?thesis using f0 assms(4) by (auto simp: mode_flags_def split: if_splits)
qed

theorem timed_heat_countdown_witness:
  "no_active_mode get_default_room_state \<and> (1::int) \<le> 1
   \<and> room_ok fromisoformat get_default_room_state
   \<and> int (length (replicate 60 (quiet_tick noon))) \<le> 1 * 60
   \<and> mode_flags (toggle_timed_heat_state (Some 1) get_default_room_state)
       = (True, False, 0, True, 60)
   \<and> snd (snd (room_ticks fromisoformat (Some ''Kitchen'') ''Kitchen''
                  (replicate 60 (quiet_tick noon))
                  (toggle_timed_heat_state (Some 1) get_default_room_state))) = None
   \<and> timed_heat_remaining_seconds
         (fst (room_ticks fromisoformat (Some ''Kitchen'') ''Kitchen''
                 (replicate 60 (quiet_tick noon))
                 (toggle_timed_heat_state (Some 1) get_default_room_state))) = 0
   \<and> timed_heat_active
         (fst (room_ticks fromisoformat (Some ''Kitchen'') ''Kitchen''
                 (replicate 60 (quiet_tick noon))
                 (toggle_timed_heat_state (Some 1) get_default_room_state))) = False
   \<and> heat_on
         (fst (room_ticks fromisoformat (Some ''Kitchen'') ''Kitchen''
                 (replicate 60 (quiet_tick noon))
                 (toggle_timed_heat_state (Some 1) get_default_room_state))) = False"
proof -
  have a: "no_active_mode get_default_room_state"
    by (simp add: no_active_mode_def get_default_room_state_def)
  have b: "(1::int) \<le> 1" by simp
  have c: "room_ok fromisoformat get_default_room_state"
    by (simp add: room_ok_def get_default_room_state_def)
  have d: "int (length (replicate 60 (quiet_tick noon))) \<le> 1 * 60" by simp
  have f: "mode_flags (toggle_timed_heat_state (Some 1) get_default_room_state)
             = (True, False, 0, True, 60)"
    by (simp add: mode_flags_def toggle_timed_heat_state_def get_default_room_state_def)
  show ?thesis
    using timed_heat_countdown[OF a b c d, of "Some ''Kitchen''" "''Kitchen''"] a c f
    by simp
qed


end
